theory Spec2Isabelle
  imports
    Complex_Main
    "HOL-Library.Word"
    "HOL-Library.List_Lexorder"
    "HOL-Library.Multiset"
    "HOL-Library.AList"
    "HOL-Library.Monad_Syntax"
begin

section \<open>Strings of the host language\<close>

text \<open>
  A string of the source language is a sequence of 16-bit code units. The relational
  operators on two strings (\<open><\<close>, \<open>>=\<close>) compare them code unit by code unit, a proper
  prefix being smaller: this is the lexicographic order on lists of words.
  \<open>js\<close> writes an ASCII literal as such a string.
\<close>

type_synonym code_unit = "16 word"

type_synonym jsstring = "code_unit list"

definition js :: "string \<Rightarrow> jsstring" where
  "js s = map (\<lambda>c. of_nat (of_char c)) s"

text \<open>
  \<open>String.prototype.trim\<close> removes white space and line terminators from both ends:
  TAB, LF, VT, FF, CR, SP, NBSP, the space separators U+1680, U+2000 to U+200A, U+202F,
  U+205F, U+3000, the line and paragraph separators U+2028 and U+2029, and U+FEFF.
\<close>

definition isWhiteSpace :: "code_unit \<Rightarrow> bool" where
  "isWhiteSpace c \<longleftrightarrow>
     c \<in> {0x9, 0xA, 0xB, 0xC, 0xD, 0x20, 0xA0, 0x1680, 0x2028, 0x2029, 0x202F, 0x205F,
          0x3000, 0xFEFF}
     \<or> (0x2000 \<le> c \<and> c \<le> 0x200A)"

definition trim :: "jsstring \<Rightarrow> jsstring" where
  "trim s = rev (dropWhile isWhiteSpace (rev (dropWhile isWhiteSpace s)))"

section \<open>Notes and the state of the component\<close>

text \<open>
  \<open>interface Note { id: number; startTime: string; endTime: string; text: string }\<close>.
  An id is the value of \<open>Date.now()\<close>, a whole number of milliseconds, so ids are
  integers here.
\<close>

record Note =
  id :: int
  startTime :: jsstring
  endTime :: jsstring
  "text" :: jsstring

text \<open>
  The five \<open>useState\<close> cells of \<open>App\<close>: the list of notes, the three inputs of the form
  and the id of the note being edited (\<open>null\<close> is \<open>None\<close>). The cells of the form carry
  the names the source gives them, so the fields of a note are written qualified
  (\<open>Note.startTime\<close>) from here on.
\<close>

record App =
  "notes" :: "Note list"
  startTime :: jsstring
  endTime :: jsstring
  "text" :: jsstring
  editingNoteId :: "int option"

definition initial :: App where
  "initial = \<lparr>notes = [], startTime = [], endTime = [], text = [], editingNoteId = None\<rparr>"

section \<open>Times of day\<close>

text \<open>
  The two time fields are inputs of type \<open>time\<close>: their value is the empty string or a
  time of day \<open>HH:MM\<close>, two digits, a colon and two digits, from \<open>00:00\<close> to \<open>23:59\<close>. This
  is also the form the data model gives to \<open>startTime\<close> and \<open>endTime\<close> of a note.
\<close>

definition isDigit :: "code_unit \<Rightarrow> bool" where
  "isDigit c \<longleftrightarrow> 0x30 \<le> c \<and> c \<le> 0x39"

definition digitValue :: "code_unit \<Rightarrow> nat" where
  "digitValue c = unat c - 48"

fun isTime :: "jsstring \<Rightarrow> bool" where
  "isTime [h1, h2, c, m1, m2] \<longleftrightarrow>
     isDigit h1 \<and> isDigit h2 \<and> c = 0x3A \<and> isDigit m1 \<and> isDigit m2
     \<and> 10 * digitValue h1 + digitValue h2 < 24 \<and> 10 * digitValue m1 + digitValue m2 < 60"
| "isTime _ \<longleftrightarrow> False"

text \<open>
  \<open>localeCompare\<close> is the collation of the platform and a parameter of the model. What the
  ordering of the notes needs of it is that on two times of day it decides as the
  comparison of the strings does. Any collation that puts the digits in their numeric
  order does so, since two times of day differ first at a digit.
\<close>

definition collatesTimes :: "(jsstring \<Rightarrow> jsstring \<Rightarrow> int) \<Rightarrow> bool" where
  "collatesTimes localeCompare \<longleftrightarrow>
     (\<forall>a b. isTime a \<and> isTime b \<longrightarrow> (localeCompare a b \<le> 0) = (a \<le> b))"

section \<open>Sorting with a comparison function\<close>

text \<open>
  \<open>Array.prototype.sort(comparefn)\<close> is a stable sort: with a consistent comparison
  function the result is the one arrangement in which \<open>comparefn a b \<le> 0\<close> holds along
  the array and elements that compare equal keep their order. Insertion from the right
  computes it: an element goes in front of the first one it does not exceed.
\<close>

fun insert_cmp :: "('a \<Rightarrow> 'a \<Rightarrow> int) \<Rightarrow> 'a \<Rightarrow> 'a list \<Rightarrow> 'a list" where
  "insert_cmp comparefn x [] = [x]"
| "insert_cmp comparefn x (y # ys) =
     (if comparefn x y \<le> 0 then x # y # ys else y # insert_cmp comparefn x ys)"

definition sort_cmp :: "('a \<Rightarrow> 'a \<Rightarrow> int) \<Rightarrow> 'a list \<Rightarrow> 'a list" where
  "sort_cmp comparefn xs = foldr (insert_cmp comparefn) xs []"

section \<open>The handlers\<close>

text \<open>
  Every handler runs against the state of the latest render and returns the state after
  its setters have been applied. \<open>handleSubmit\<close> shows an alert and returns early on a
  draft that fails validation; the alert is the first component of its result, and
  \<open>None\<close> there means that the handler went on to \<open>setNotes\<close> and to the reset of the
  form. The platform supplies two things the handler reads: the collation
  \<open>localeCompare\<close> of two strings (negative, zero or positive) and the clock \<open>now\<close>, the
  value of \<open>Date.now()\<close>.
\<close>

datatype alert = MissingField | InvalidRange

definition byStartTime :: "(jsstring \<Rightarrow> jsstring \<Rightarrow> int) \<Rightarrow> Note \<Rightarrow> Note \<Rightarrow> int" where
  "byStartTime localeCompare a b = localeCompare (Note.startTime a) (Note.startTime b)"

text \<open>The object \<open>newNote\<close> of the create branch.\<close>

definition newNote :: "int \<Rightarrow> App \<Rightarrow> Note" where
  "newNote now s =
     \<lparr>Note.id = now, Note.startTime = startTime s, Note.endTime = endTime s,
      Note.text = text s\<rparr>"

text \<open>
  The callback of \<open>map\<close> in the update branch:
  \<open>note.id === editingNoteId ? { ...note, startTime, endTime, text } : note\<close>.
\<close>

definition replaceEdited :: "int \<Rightarrow> App \<Rightarrow> Note \<Rightarrow> Note" where
  "replaceEdited editing s note =
     (if Note.id note = editing
      then note\<lparr>Note.startTime := startTime s, Note.endTime := endTime s,
                Note.text := text s\<rparr>
      else note)"

definition resetForm :: "App \<Rightarrow> App" where
  "resetForm s = s\<lparr>startTime := [], endTime := [], text := [], editingNoteId := None\<rparr>"

definition handleSubmit ::
  "(jsstring \<Rightarrow> jsstring \<Rightarrow> int) \<Rightarrow> int \<Rightarrow> App \<Rightarrow> alert option \<times> App" where
  "handleSubmit localeCompare now s =
     (if startTime s = [] \<or> endTime s = [] \<or> trim (text s) = [] then (Some MissingField, s)
      else if startTime s \<ge> endTime s then (Some InvalidRange, s)
      else
        (None,
         resetForm
           (case editingNoteId s of
              Some editing \<Rightarrow>
                s\<lparr>notes :=
                    sort_cmp (byStartTime localeCompare)
                      (map (replaceEdited editing s) (notes s))\<rparr>
            | None \<Rightarrow>
                s\<lparr>notes :=
                    sort_cmp (byStartTime localeCompare) (notes s @ [newNote now s])\<rparr>)))"

definition handleEdit :: "Note \<Rightarrow> App \<Rightarrow> App" where
  "handleEdit note s =
     s\<lparr>editingNoteId := Some (Note.id note), startTime := Note.startTime note,
       endTime := Note.endTime note, text := Note.text note\<rparr>"

definition handleDelete :: "int \<Rightarrow> App \<Rightarrow> App" where
  "handleDelete i s = s\<lparr>notes := filter (\<lambda>note. Note.id note \<noteq> i) (notes s)\<rparr>"

definition handleCancelEdit :: "App \<Rightarrow> App" where
  "handleCancelEdit s =
     s\<lparr>editingNoteId := None, startTime := [], endTime := [], text := []\<rparr>"

text \<open>The "Delete All" button, once the user has confirmed: \<open>setNotes([])\<close>.\<close>

definition deleteAll :: "App \<Rightarrow> App" where
  "deleteAll s = s\<lparr>notes := []\<rparr>"

section \<open>Minutes and times\<close>

text \<open>
  \<open>String.prototype.split\<close> with a one-unit separator: the pieces between the
  separators, a single empty piece for the empty string.
\<close>

fun split :: "code_unit \<Rightarrow> jsstring \<Rightarrow> jsstring list" where
  "split separator [] = [[]]"
| "split separator (c # cs) =
     (if c = separator then [] # split separator cs
      else (case split separator cs of [] \<Rightarrow> [[c]] | part # parts \<Rightarrow> (c # part) # parts))"

text \<open>
  \<open>Number\<close> applied to a string. White space around the literal is dropped; the empty
  literal is 0; digits, with a sign or without, are read in base ten. Numbers are
  integers here (exact in a double below \<open>2^53\<close>) and \<open>None\<close> is \<open>NaN\<close>. Literals with a
  fraction, an exponent or a radix prefix, and \<open>Infinity\<close>, are left out of the model:
  they are \<open>None\<close> too, and no time of day is one of them.
\<close>

definition decimalDigits :: "jsstring \<Rightarrow> int option" where
  "decimalDigits ds =
     (if ds \<noteq> [] \<and> list_all isDigit ds
      then Some (foldl (\<lambda>n c. 10 * n + int (digitValue c)) 0 ds)
      else None)"

definition Number :: "jsstring \<Rightarrow> int option" where
  "Number str =
     (case trim str of
        [] \<Rightarrow> Some 0
      | c # cs \<Rightarrow>
          if c = 0x2D then map_option uminus (decimalDigits cs)
          else if c = 0x2B then decimalDigits cs
          else decimalDigits (c # cs))"

text \<open>
  \<open>const [hours, minutes] = timeStr.split(":").map(Number); return hours * 60 + minutes\<close>.
  A missing second piece leaves \<open>minutes\<close> undefined and the sum \<open>NaN\<close>; pieces after
  the second are ignored.
\<close>

definition timeToMinutes :: "jsstring \<Rightarrow> int option" where
  "timeToMinutes timeStr =
     (case map Number (split 0x3A timeStr) of
        Some hours # Some minutes # _ \<Rightarrow> Some (hours * 60 + minutes)
      | _ \<Rightarrow> None)"

text \<open>
  \<open>Number.prototype.toString\<close> on an integer: its decimal digits, after a minus sign
  when it is negative. \<open>padStart\<close> fills a shorter string on the left with repetitions
  of the pad string, cut to the missing length.
\<close>

definition digit :: "nat \<Rightarrow> code_unit" where
  "digit n = of_nat (48 + n)"

fun digitsOf :: "nat \<Rightarrow> jsstring" where
  "digitsOf n = (if n < 10 then [digit n] else digitsOf (n div 10) @ [digit (n mod 10)])"

declare digitsOf.simps [simp del]

definition toString :: "int \<Rightarrow> jsstring" where
  "toString n = (if n < 0 then 0x2D # digitsOf (nat (- n)) else digitsOf (nat n))"

definition padStart :: "nat \<Rightarrow> jsstring \<Rightarrow> jsstring \<Rightarrow> jsstring" where
  "padStart targetLength padString str =
     (if targetLength \<le> length str \<or> padString = [] then str
      else take (targetLength - length str)
             (concat (replicate (targetLength - length str) padString)) @ str)"

text \<open>
  \<open>minutesToTime\<close> on a whole number of minutes. \<open>Math.floor(minutes / 60)\<close> is the
  floored quotient; \<open>minutes % 60\<close> takes the sign of \<open>minutes\<close>.
\<close>

definition minutesToTime :: "int \<Rightarrow> jsstring" where
  "minutesToTime minutes =
     (let h = minutes div 60;
          m = (if minutes < 0 then - ((- minutes) mod 60) else minutes mod 60)
      in padStart 2 (js ''0'') (toString h) @ js '':'' @ padStart 2 (js ''0'') (toString m))"

text \<open>
  The duration a note is rendered with:
  \<open>(timeToMinutes(note.endTime) - timeToMinutes(note.startTime)) / 60\<close>, the quotient
  taken exactly, as a rational. \<open>parseFloat(x.toFixed(2))\<close> then shows it rounded to
  the nearest hundredth, a half away from zero.
\<close>

definition durationHours :: "Note \<Rightarrow> rat option" where
  "durationHours note =
     (case (timeToMinutes (Note.endTime note), timeToMinutes (Note.startTime note)) of
        (Some e, Some b) \<Rightarrow> Some (of_int (e - b) / 60)
      | _ \<Rightarrow> None)"

definition toFixed2 :: "rat \<Rightarrow> rat" where
  "toFixed2 x =
     (if x < 0 then - (of_int \<lfloor>- x * 100 + 1 / 2\<rfloor> / 100)
      else of_int \<lfloor>x * 100 + 1 / 2\<rfloor> / 100)"

definition durationShown :: "Note \<Rightarrow> rat option" where
  "durationShown note = map_option toFixed2 (durationHours note)"

text \<open>
  The specification's \<open>minutes(t)\<close> of a time of day \<open>HH:MM\<close>, in its own words: the total
  of minutes since midnight, sixty for each of the \<open>HH\<close> hours and the \<open>MM\<close> minutes. It
  is what \<open>timeToMinutes\<close> is compared with.
\<close>

fun minutesSinceMidnight :: "jsstring \<Rightarrow> int" where
  "minutesSinceMidnight [h1, h2, c, m1, m2] =
     int ((10 * digitValue h1 + digitValue h2) * 60 + (10 * digitValue m1 + digitValue m2))"
| "minutesSinceMidnight _ = 0"

section \<open>Runs of the component\<close>

text \<open>
  What the user can do, one event per handler call: type into one of the three inputs,
  submit the form (the clock value read by that call is part of the event), press the
  edit or the delete button of a note, cancel an edit, delete all notes. A note has its
  edit button only while it is in the list.
\<close>

datatype event =
  ChangeStartTime jsstring
  | ChangeEndTime jsstring
  | ChangeText jsstring
  | Submit int
  | Edit Note
  | Delete int
  | CancelEdit
  | DeleteAll

fun step :: "(jsstring \<Rightarrow> jsstring \<Rightarrow> int) \<Rightarrow> App \<Rightarrow> event \<Rightarrow> App" where
  "step localeCompare s (ChangeStartTime v) = s\<lparr>startTime := v\<rparr>"
| "step localeCompare s (ChangeEndTime v) = s\<lparr>endTime := v\<rparr>"
| "step localeCompare s (ChangeText v) = s\<lparr>text := v\<rparr>"
| "step localeCompare s (Submit now) = snd (handleSubmit localeCompare now s)"
| "step localeCompare s (Edit note) = (if note \<in> set (notes s) then handleEdit note s else s)"
| "step localeCompare s (Delete i) = handleDelete i s"
| "step localeCompare s CancelEdit = handleCancelEdit s"
| "step localeCompare s DeleteAll = deleteAll s"

definition run :: "(jsstring \<Rightarrow> jsstring \<Rightarrow> int) \<Rightarrow> App \<Rightarrow> event list \<Rightarrow> App" where
  "run localeCompare s events = foldl (step localeCompare) s events"

text \<open>
  \<open>freshClock\<close> holds of a run when every submit that creates a note reads a clock value
  that is not the id of a note in the list at that moment.
\<close>

fun freshClock :: "(jsstring \<Rightarrow> jsstring \<Rightarrow> int) \<Rightarrow> App \<Rightarrow> event list \<Rightarrow> bool" where
  "freshClock localeCompare s [] \<longleftrightarrow> True"
| "freshClock localeCompare s (Submit now # events) \<longleftrightarrow>
     (fst (handleSubmit localeCompare now s) = None \<and> editingNoteId s = None \<longrightarrow>
        now \<notin> Note.id ` set (notes s))
     \<and> freshClock localeCompare (step localeCompare s (Submit now)) events"
| "freshClock localeCompare s (e # events) \<longleftrightarrow>
     freshClock localeCompare (step localeCompare s e) events"

section \<open>Persistence\<close>

text \<open>
  \<open>localStorage\<close>: the stored items, a value for each key, and the quota of the origin.
  \<open>setItem\<close> throws when the items would exceed the quota (\<open>None\<close> here); how usage is
  counted is up to the browser, and is taken here as the code units of keys and values.
\<close>

record Storage =
  items :: "(jsstring \<times> jsstring) list"
  quota :: nat

definition getItem :: "jsstring \<Rightarrow> Storage \<Rightarrow> jsstring option" where
  "getItem key storage = map_of (items storage) key"

definition setItem :: "jsstring \<Rightarrow> jsstring \<Rightarrow> Storage \<Rightarrow> Storage option" where
  "setItem key v storage =
     (let items' = AList.update key v (items storage)
      in if (\<Sum>(k, w) \<leftarrow> items'. length k + length w) \<le> quota storage
         then Some (storage\<lparr>items := items'\<rparr>)
         else None)"

definition storageKey :: jsstring where
  "storageKey = js ''timenotes_v3''"

text \<open>
  The effect that saves: \<open>localStorage.setItem("timenotes_v3", JSON.stringify(notes))\<close>
  inside \<open>try\<close>; a write that throws is logged and the storage stays as it was. The
  serializer is the platform's and a parameter of the model, as is the parser below.
\<close>

definition saveEffect :: "(Note list \<Rightarrow> jsstring) \<Rightarrow> Note list \<Rightarrow> Storage \<Rightarrow> Storage" where
  "saveEffect stringify ns storage =
     (case setItem storageKey (stringify ns) storage of
        Some storage' \<Rightarrow> storage'
      | None \<Rightarrow> storage)"

text \<open>
  The effect that loads, on mount: the item is read, and when it is there and not the
  empty string it is parsed and becomes the list of notes. A parse that throws
  (\<open>None\<close>) is logged and the notes stay as they were.
\<close>

definition loadEffect :: "(jsstring \<Rightarrow> Note list option) \<Rightarrow> Storage \<Rightarrow> App \<Rightarrow> App" where
  "loadEffect parse storage s =
     (case getItem storageKey storage of
        None \<Rightarrow> s
      | Some savedNotes \<Rightarrow>
          if savedNotes = [] then s
          else (case parse savedNotes of
                  None \<Rightarrow> s
                | Some ns \<Rightarrow> s\<lparr>notes := ns\<rparr>))"

section \<open>JSON text of a list of notes\<close>

text \<open>
  What \<open>JSON.stringify\<close> writes for an array of notes. A string is quoted with the short
  escapes for backspace, tab, line feed, form feed, carriage return, the quote and the
  backslash; other code units below U+0020 and surrogates that are not part of a pair
  are written \<open>\uXXXX\<close> with lower-case hex digits; every other code unit stands for
  itself. A note is an object of its four properties in the order of their creation,
  the id in decimal; the array is the objects between brackets, separated by commas,
  with no white space.
\<close>

definition isLeadingSurrogate :: "code_unit \<Rightarrow> bool" where
  "isLeadingSurrogate c \<longleftrightarrow> 0xD800 \<le> c \<and> c \<le> 0xDBFF"

definition isTrailingSurrogate :: "code_unit \<Rightarrow> bool" where
  "isTrailingSurrogate c \<longleftrightarrow> 0xDC00 \<le> c \<and> c \<le> 0xDFFF"

definition hexDigit :: "nat \<Rightarrow> code_unit" where
  "hexDigit n = (if n < 10 then of_nat (48 + n) else of_nat (87 + n))"

definition UnicodeEscape :: "code_unit \<Rightarrow> jsstring" where
  "UnicodeEscape c =
     [0x5C, 0x75, hexDigit (unat c div 4096), hexDigit (unat c div 256 mod 16),
      hexDigit (unat c div 16 mod 16), hexDigit (unat c mod 16)]"

definition escapeUnit :: "code_unit \<Rightarrow> jsstring" where
  "escapeUnit c =
     (if c = 0x08 then [0x5C, 0x62]
      else if c = 0x09 then [0x5C, 0x74]
      else if c = 0x0A then [0x5C, 0x6E]
      else if c = 0x0C then [0x5C, 0x66]
      else if c = 0x0D then [0x5C, 0x72]
      else if c = 0x22 then [0x5C, 0x22]
      else if c = 0x5C then [0x5C, 0x5C]
      else if c < 0x20 \<or> isLeadingSurrogate c \<or> isTrailingSurrogate c then UnicodeEscape c
      else [c])"

fun quoteUnits :: "jsstring \<Rightarrow> jsstring" where
  "quoteUnits [] = []"
| "quoteUnits [c] = escapeUnit c"
| "quoteUnits (c # d # cs) =
     (if isLeadingSurrogate c \<and> isTrailingSurrogate d then c # d # quoteUnits cs
      else escapeUnit c @ quoteUnits (d # cs))"

definition QuoteJSONString :: "jsstring \<Rightarrow> jsstring" where
  "QuoteJSONString v = 0x22 # quoteUnits v @ [0x22]"

definition property :: "string \<Rightarrow> jsstring" where
  "property name = QuoteJSONString (js name) @ [0x3A]"

definition stringifyNote :: "Note \<Rightarrow> jsstring" where
  "stringifyNote note =
     0x7B # property ''id'' @ toString (Note.id note)
     @ 0x2C # property ''startTime'' @ QuoteJSONString (Note.startTime note)
     @ 0x2C # property ''endTime'' @ QuoteJSONString (Note.endTime note)
     @ 0x2C # property ''text'' @ QuoteJSONString (Note.text note)
     @ [0x7D]"

fun joinComma :: "jsstring list \<Rightarrow> jsstring" where
  "joinComma [] = []"
| "joinComma [x] = x"
| "joinComma (x # y # ys) = x @ 0x2C # joinComma (y # ys)"

definition stringifyNotes :: "Note list \<Rightarrow> jsstring" where
  "stringifyNotes ns = 0x5B # joinComma (map stringifyNote ns) @ [0x5D]"

text \<open>
  A reader of the texts above, as \<open>JSON.parse\<close> reads them: a string with its escapes
  (any of the short escapes and \<open>\uXXXX\<close> in either case), an integer without leading
  zeros, the four properties in this order, the array. \<open>None\<close> is the \<open>SyntaxError\<close> of
  \<open>JSON.parse\<close>; it also stands for the JSON texts of another layout (white space
  between tokens, other properties, fractions), which this reader leaves out.
\<close>

definition hexValue :: "code_unit \<Rightarrow> nat option" where
  "hexValue c =
     (if 0x30 \<le> c \<and> c \<le> 0x39 then Some (unat c - 48)
      else if 0x61 \<le> c \<and> c \<le> 0x66 then Some (unat c - 87)
      else if 0x41 \<le> c \<and> c \<le> 0x46 then Some (unat c - 55)
      else None)"

definition unescape :: "code_unit \<Rightarrow> code_unit option" where
  "unescape e =
     (if e = 0x22 then Some 0x22
      else if e = 0x5C then Some 0x5C
      else if e = 0x2F then Some 0x2F
      else if e = 0x62 then Some 0x08
      else if e = 0x66 then Some 0x0C
      else if e = 0x6E then Some 0x0A
      else if e = 0x72 then Some 0x0D
      else if e = 0x74 then Some 0x09
      else None)"

definition hex4 :: "code_unit \<Rightarrow> code_unit \<Rightarrow> code_unit \<Rightarrow> code_unit \<Rightarrow> code_unit option" where
  "hex4 a b c d =
     (case (hexValue a, hexValue b, hexValue c, hexValue d) of
        (Some p, Some q, Some r, Some s) \<Rightarrow> Some (of_nat (((p * 16 + q) * 16 + r) * 16 + s))
      | _ \<Rightarrow> None)"

fun parseChars :: "jsstring \<Rightarrow> (jsstring \<times> jsstring) option" where
  "parseChars [] = None"
| "parseChars (c # cs) =
     (if c = 0x22 then Some ([], cs)
      else if c = 0x5C then
        (case cs of
           [] \<Rightarrow> None
         | e # es \<Rightarrow>
             if e = 0x75 then
               (case es of
                  h1 # h2 # h3 # h4 # rest \<Rightarrow>
                    (case hex4 h1 h2 h3 h4 of
                       None \<Rightarrow> None
                     | Some u \<Rightarrow> map_option (apfst ((#) u)) (parseChars rest))
                | _ \<Rightarrow> None)
             else
               (case unescape e of
                  None \<Rightarrow> None
                | Some u \<Rightarrow> map_option (apfst ((#) u)) (parseChars es)))
      else if c < 0x20 then None
      else map_option (apfst ((#) c)) (parseChars cs))"

definition expect :: "jsstring \<Rightarrow> jsstring \<Rightarrow> jsstring option" where
  "expect literal s =
     (if take (length literal) s = literal then Some (drop (length literal) s) else None)"

definition parseString :: "jsstring \<Rightarrow> (jsstring \<times> jsstring) option" where
  "parseString s = (case s of c # cs \<Rightarrow> if c = 0x22 then parseChars cs else None | [] \<Rightarrow> None)"

definition parseNatural :: "jsstring \<Rightarrow> (int \<times> jsstring) option" where
  "parseNatural s =
     (let ds = takeWhile isDigit s in
      if ds = [] \<or> (length ds > 1 \<and> hd ds = 0x30) then None
      else Some (foldl (\<lambda>n c. 10 * n + int (digitValue c)) 0 ds, dropWhile isDigit s))"

definition parseInteger :: "jsstring \<Rightarrow> (int \<times> jsstring) option" where
  "parseInteger s =
     (case s of
        [] \<Rightarrow> None
      | c # cs \<Rightarrow>
          if c = 0x2D then map_option (apfst uminus) (parseNatural cs) else parseNatural s)"

definition parseNote :: "jsstring \<Rightarrow> (Note \<times> jsstring) option" where
  "parseNote s =
     do {
       s \<leftarrow> expect (0x7B # property ''id'') s;
       (i, s) \<leftarrow> parseInteger s;
       s \<leftarrow> expect (0x2C # property ''startTime'') s;
       (st, s) \<leftarrow> parseString s;
       s \<leftarrow> expect (0x2C # property ''endTime'') s;
       (en, s) \<leftarrow> parseString s;
       s \<leftarrow> expect (0x2C # property ''text'') s;
       (tx, s) \<leftarrow> parseString s;
       s \<leftarrow> expect [0x7D] s;
       Some (\<lparr>Note.id = i, Note.startTime = st, Note.endTime = en, Note.text = tx\<rparr>, s)
     }"

fun parseElements :: "nat \<Rightarrow> jsstring \<Rightarrow> (Note list \<times> jsstring) option" where
  "parseElements 0 s = None"
| "parseElements (Suc fuel) s =
     (case parseNote s of
        None \<Rightarrow> None
      | Some (note, rest) \<Rightarrow>
          (case rest of
             [] \<Rightarrow> None
           | c # cs \<Rightarrow>
               if c = 0x5D then Some ([note], cs)
               else if c = 0x2C then map_option (apfst ((#) note)) (parseElements fuel cs)
               else None))"

definition parseNotes :: "jsstring \<Rightarrow> Note list option" where
  "parseNotes s =
     (case s of
        [] \<Rightarrow> None
      | c # cs \<Rightarrow>
          if c \<noteq> 0x5B then None
          else if cs = [0x5D] then Some []
          else (case parseElements (length cs) cs of
                  Some (ns, []) \<Rightarrow> Some ns
                | _ \<Rightarrow> None))"

section \<open>Sample data\<close>

text \<open>
  The platform's collation is a parameter of the model. \<open>codeUnitCompare\<close> is the
  comparison by code units: a collation that orders the digits \<open>0\<close> to \<open>9\<close> in their
  numeric order agrees with it on any two time strings of the form \<open>HH:MM\<close>.
\<close>

definition codeUnitCompare :: "jsstring \<Rightarrow> jsstring \<Rightarrow> int" where
  "codeUnitCompare a b = (if a < b then - 1 else if a = b then 0 else 1)"

definition writeSpec :: Note where
  "writeSpec =
     \<lparr>Note.id = 1000, Note.startTime = js ''09:00'', Note.endTime = js ''10:00'',
      Note.text = js ''write spec''\<rparr>"

definition coffee :: Note where
  "coffee =
     \<lparr>Note.id = 2000, Note.startTime = js ''08:00'', Note.endTime = js ''08:30'',
      Note.text = js ''coffee''\<rparr>"

definition twoNotes :: App where
  "twoNotes =
     \<lparr>notes = [coffee, writeSpec], startTime = [], endTime = [], text = [],
      editingNoteId = None\<rparr>"

text \<open>
  Three drafts over \<open>twoNotes\<close>: one whose end is not after its start, one whose text is
  only white space (an ideographic space and a space), one that passes validation and
  whose text starts with a space.
\<close>

definition draftLate :: App where
  "draftLate = twoNotes\<lparr>startTime := js ''10:00'', endTime := js ''09:00'', text := js ''x''\<rparr>"

definition draftBlank :: App where
  "draftBlank =
     twoNotes\<lparr>startTime := js ''08:15'', endTime := js ''09:00'', text := [0x3000, 0x20]\<rparr>"

definition draftGood :: App where
  "draftGood =
     twoNotes\<lparr>startTime := js ''08:15'', endTime := js ''09:00'', text := js '' x''\<rparr>"

text \<open>
  A valid draft while the note under edit is no longer in the list: \<open>editingNoteId\<close> is
  an id that no note of \<open>twoNotes\<close> has.
\<close>

definition draftDangling :: App where
  "draftDangling =
     twoNotes\<lparr>startTime := js ''11:00'', endTime := js ''12:00'', text := js ''lunch'',
       editingNoteId := Some 3000\<rparr>"

text \<open>A draft with \<open>writeSpec\<close> under edit, which moves that note to 07:30.\<close>

definition draftMove :: App where
  "draftMove =
     twoNotes\<lparr>startTime := js ''07:30'', endTime := js ''08:00'', text := js ''write spec'',
       editingNoteId := Some 1000\<rparr>"

text \<open>
  The scenario of two creations: "write spec" from 09:00 to 10:00, submitted at clock
  value \<open>first\<close>, then "coffee" from 08:00 to 08:30, submitted at \<open>second\<close>.
\<close>

definition twoSubmits :: "int \<Rightarrow> int \<Rightarrow> event list" where
  "twoSubmits first second =
     [ChangeStartTime (js ''09:00''), ChangeEndTime (js ''10:00''), ChangeText (js ''write spec''),
      Submit first,
      ChangeStartTime (js ''08:00''), ChangeEndTime (js ''08:30''), ChangeText (js ''coffee''),
      Submit second]"

text \<open>A storage with nothing in it and room for five million code units.\<close>

definition emptyStorage :: Storage where
  "emptyStorage = \<lparr>items = [], quota = 5000000\<rparr>"

text \<open>
  The edit button of \<open>coffee\<close> has been pressed and nothing typed since: the draft holds
  the fields of the note under edit.
\<close>

definition draftSame :: App where
  "draftSame = handleEdit coffee twoNotes"

text \<open>
  The draft of \<open>draftDangling\<close> over a list that is not in the order of the start times,
  as a list read from storage may be.
\<close>

definition draftShuffled :: App where
  "draftShuffled =
     \<lparr>notes = [writeSpec, coffee], startTime = js ''11:00'', endTime = js ''12:00'',
      text = js ''lunch'', editingNoteId = Some 3000\<rparr>"

text \<open>
  The two notes created at the same clock value 1000, which share their id, and a draft
  that edits the note with that id.
\<close>

definition draftTwins :: App where
  "draftTwins =
     \<lparr>notes = notes (run codeUnitCompare initial (twoSubmits 1000 1000)),
      startTime = js ''07:30'', endTime = js ''08:00'', text = js ''write spec'',
      editingNoteId = Some 1000\<rparr>"

section \<open>Sorting keeps the elements\<close>

lemma mset_insert_cmp: "mset (insert_cmp c x xs) = add_mset x (mset xs)"
  by (induction xs) auto

lemma mset_sort_cmp: "mset (sort_cmp c xs) = mset xs"
  by (induction xs) (auto simp: sort_cmp_def mset_insert_cmp)

lemma length_sort_cmp: "length (sort_cmp c xs) = length xs"
proof -
  have "size (mset (sort_cmp c xs)) = size (mset xs)"
    by (simp only: mset_sort_cmp)
  then show ?thesis by simp
qed

lemma set_sort_cmp: "set (sort_cmp c xs) = set xs"
proof -
  have "set_mset (mset (sort_cmp c xs)) = set_mset (mset xs)"
    by (simp only: mset_sort_cmp)
  then show ?thesis by simp
qed

section \<open>Validation of a submit\<close>

lemma handleSubmit_add:
  assumes "startTime s \<noteq> []" "startTime s < endTime s" "trim (text s) \<noteq> []"
    and "editingNoteId s = None"
  shows "handleSubmit lc now s =
    (None, resetForm (s\<lparr>notes := sort_cmp (byStartTime lc) (notes s @ [newNote now s])\<rparr>))"
  using assms by (auto simp: handleSubmit_def)

lemma handleSubmit_update:
  assumes "startTime s \<noteq> []" "startTime s < endTime s" "trim (text s) \<noteq> []"
    and "editingNoteId s = Some e"
  shows "handleSubmit lc now s =
    (None,
     resetForm (s\<lparr>notes := sort_cmp (byStartTime lc) (map (replaceEdited e s) (notes s))\<rparr>))"
  using assms by (auto simp: handleSubmit_def)

lemma handleSubmit_accepted_iff:
  "fst (handleSubmit lc now s) = None \<longleftrightarrow>
     startTime s \<noteq> [] \<and> endTime s \<noteq> [] \<and> trim (text s) \<noteq> [] \<and> startTime s < endTime s"
  by (auto simp: handleSubmit_def)

lemma handleSubmit_notes:
  assumes "fst (handleSubmit lc now s) = None"
  shows "notes (snd (handleSubmit lc now s)) =
    sort_cmp (byStartTime lc)
      (case editingNoteId s of
         Some editing \<Rightarrow> map (replaceEdited editing s) (notes s)
       | None \<Rightarrow> notes s @ [newNote now s])"
  using assms
  by (auto simp: handleSubmit_def resetForm_def split: option.splits if_splits)

lemma handleSubmit_edit_changes:
  assumes ok: "fst (handleSubmit lc now s) = None" and mode: "editingNoteId s = Some e"
    and matching: "note \<in> set (notes s)" "Note.id note = e"
    and differs: "Note.startTime note \<noteq> startTime s \<or> Note.endTime note \<noteq> endTime s
      \<or> Note.text note \<noteq> text s"
  shows "notes (snd (handleSubmit lc now s)) \<noteq> notes s"
proof
  assume same: "notes (snd (handleSubmit lc now s)) = notes s"
  from ok mode have "notes (snd (handleSubmit lc now s)) =
      sort_cmp (byStartTime lc) (map (replaceEdited e s) (notes s))"
    by (simp add: handleSubmit_notes)
  with same have "set (notes s) = replaceEdited e s ` set (notes s)"
    by (metis set_sort_cmp set_map)
  with matching(1) obtain y where y: "y \<in> set (notes s)" "note = replaceEdited e s y"
    by blast
  show False
  proof (cases "Note.id y = e")
    case True
    with y(2) have "Note.startTime note = startTime s" "Note.endTime note = endTime s"
      "Note.text note = text s"
      by (simp_all add: replaceEdited_def)
    with differs show False by simp
  next
    case False
    with y(2) have "note = y" by (simp add: replaceEdited_def)
    with False matching(2) show False by simp
  qed
qed

text \<open>
  Claim C1, as the code has it. A submit raises no alert exactly when the start time is
  not empty, the end time is not empty, the trimmed text is not empty and the start time
  is below the end time as strings. An empty field is answered with \<open>MissingField\<close>, and
  \<open>startTime \<ge> endTime\<close> on filled fields with \<open>InvalidRange\<close>; after a rejected submit
  the whole state is the one before it: the notes and the four cells of the draft. The
  notes differ after a submit only if the draft met the four conditions. A submit that
  meets them does change the notes when no note is under edit (a note is added), and
  when a note with the id under edit differs from the draft in its start time, end time
  or text. What it writes is the old list with the new note appended, or with the notes
  of the id under edit given the fields of the draft, sorted by start time.
\<close>

theorem handleSubmit_validation:
  "(fst (handleSubmit localeCompare now s) = None \<longleftrightarrow>
      startTime s \<noteq> [] \<and> endTime s \<noteq> [] \<and> trim (text s) \<noteq> [] \<and> startTime s < endTime s)
   \<and> (fst (handleSubmit localeCompare now s) = Some MissingField \<longleftrightarrow>
      startTime s = [] \<or> endTime s = [] \<or> trim (text s) = [])
   \<and> (fst (handleSubmit localeCompare now s) = Some InvalidRange \<longleftrightarrow>
      startTime s \<noteq> [] \<and> endTime s \<noteq> [] \<and> trim (text s) \<noteq> [] \<and> startTime s \<ge> endTime s)
   \<and> (fst (handleSubmit localeCompare now s) \<noteq> None \<longrightarrow>
      snd (handleSubmit localeCompare now s) = s)
   \<and> (notes (snd (handleSubmit localeCompare now s)) \<noteq> notes s \<longrightarrow>
      startTime s \<noteq> [] \<and> endTime s \<noteq> [] \<and> trim (text s) \<noteq> [] \<and> startTime s < endTime s)
   \<and> (startTime s \<noteq> [] \<and> endTime s \<noteq> [] \<and> trim (text s) \<noteq> [] \<and> startTime s < endTime s
        \<and> editingNoteId s = None \<longrightarrow>
      notes (snd (handleSubmit localeCompare now s)) \<noteq> notes s)
   \<and> (startTime s \<noteq> [] \<and> endTime s \<noteq> [] \<and> trim (text s) \<noteq> [] \<and> startTime s < endTime s
        \<and> editingNoteId s = Some e \<and> edited \<in> set (notes s) \<and> Note.id edited = e
        \<and> (Note.startTime edited \<noteq> startTime s \<or> Note.endTime edited \<noteq> endTime s
             \<or> Note.text edited \<noteq> text s) \<longrightarrow>
      notes (snd (handleSubmit localeCompare now s)) \<noteq> notes s)
   \<and> (startTime s \<noteq> [] \<and> endTime s \<noteq> [] \<and> trim (text s) \<noteq> [] \<and> startTime s < endTime s
        \<longrightarrow>
      notes (snd (handleSubmit localeCompare now s)) =
        sort_cmp (\<lambda>a b. localeCompare (Note.startTime a) (Note.startTime b))
          (case editingNoteId s of
             Some editing \<Rightarrow>
               map (\<lambda>note. if Note.id note = editing
                      then \<lparr>Note.id = Note.id note, Note.startTime = startTime s,
                            Note.endTime = endTime s, Note.text = text s\<rparr>
                      else note)
                 (notes s)
           | None \<Rightarrow>
               notes s @
               [\<lparr>Note.id = now, Note.startTime = startTime s, Note.endTime = endTime s,
                 Note.text = text s\<rparr>]))"
proof -
  let ?valid = "startTime s \<noteq> [] \<and> endTime s \<noteq> [] \<and> trim (text s) \<noteq> [] \<and> startTime s < endTime s"
  have accepted: "fst (handleSubmit localeCompare now s) = None \<longleftrightarrow> ?valid"
    by (rule handleSubmit_accepted_iff)
  have missing: "fst (handleSubmit localeCompare now s) = Some MissingField \<longleftrightarrow>
      startTime s = [] \<or> endTime s = [] \<or> trim (text s) = []"
    by (auto simp: handleSubmit_def)
  have range: "fst (handleSubmit localeCompare now s) = Some InvalidRange \<longleftrightarrow>
      startTime s \<noteq> [] \<and> endTime s \<noteq> [] \<and> trim (text s) \<noteq> [] \<and> startTime s \<ge> endTime s"
    by (auto simp: handleSubmit_def)
  have rejected: "fst (handleSubmit localeCompare now s) \<noteq> None \<longrightarrow>
      snd (handleSubmit localeCompare now s) = s"
    by (auto simp: handleSubmit_def)
  have only_if: "notes (snd (handleSubmit localeCompare now s)) \<noteq> notes s \<longrightarrow> ?valid"
    using accepted rejected by metis
  have created: "?valid \<and> editingNoteId s = None \<longrightarrow>
      notes (snd (handleSubmit localeCompare now s)) \<noteq> notes s"
  proof
    assume a: "?valid \<and> editingNoteId s = None"
    then have "length (notes (snd (handleSubmit localeCompare now s))) = Suc (length (notes s))"
      by (simp add: handleSubmit_add resetForm_def length_sort_cmp)
    then show "notes (snd (handleSubmit localeCompare now s)) \<noteq> notes s"
      by auto
  qed
  have edited: "?valid \<and> editingNoteId s = Some e \<and> edited \<in> set (notes s) \<and> Note.id edited = e
        \<and> (Note.startTime edited \<noteq> startTime s \<or> Note.endTime edited \<noteq> endTime s
             \<or> Note.text edited \<noteq> text s) \<longrightarrow>
      notes (snd (handleSubmit localeCompare now s)) \<noteq> notes s"
  proof
    assume a: "?valid \<and> editingNoteId s = Some e \<and> edited \<in> set (notes s) \<and> Note.id edited = e
        \<and> (Note.startTime edited \<noteq> startTime s \<or> Note.endTime edited \<noteq> endTime s
             \<or> Note.text edited \<noteq> text s)"
    then have "fst (handleSubmit localeCompare now s) = None"
      using accepted by blast
    with a show "notes (snd (handleSubmit localeCompare now s)) \<noteq> notes s"
      by (intro handleSubmit_edit_changes [of localeCompare now s e edited]) simp_all
  qed
  have created': "startTime s \<noteq> [] \<and> endTime s \<noteq> [] \<and> trim (text s) \<noteq> []
        \<and> startTime s < endTime s \<and> editingNoteId s = None \<longrightarrow>
      notes (snd (handleSubmit localeCompare now s)) \<noteq> notes s"
    using created by blast
  have edited': "startTime s \<noteq> [] \<and> endTime s \<noteq> [] \<and> trim (text s) \<noteq> []
        \<and> startTime s < endTime s
        \<and> editingNoteId s = Some e \<and> edited \<in> set (notes s) \<and> Note.id edited = e
        \<and> (Note.startTime edited \<noteq> startTime s \<or> Note.endTime edited \<noteq> endTime s
             \<or> Note.text edited \<noteq> text s) \<longrightarrow>
      notes (snd (handleSubmit localeCompare now s)) \<noteq> notes s"
    using edited by blast
  have callback: "replaceEdited editing s =
      (\<lambda>note. if Note.id note = editing
         then \<lparr>Note.id = Note.id note, Note.startTime = startTime s,
               Note.endTime = endTime s, Note.text = text s\<rparr>
         else note)" for editing
    by (rule ext) (simp add: replaceEdited_def)
  have compare: "byStartTime localeCompare =
      (\<lambda>a b. localeCompare (Note.startTime a) (Note.startTime b))"
    by (intro ext) (simp add: byStartTime_def)
  have written: "?valid \<longrightarrow>
      notes (snd (handleSubmit localeCompare now s)) =
        sort_cmp (\<lambda>a b. localeCompare (Note.startTime a) (Note.startTime b))
          (case editingNoteId s of
             Some editing \<Rightarrow>
               map (\<lambda>note. if Note.id note = editing
                      then \<lparr>Note.id = Note.id note, Note.startTime = startTime s,
                            Note.endTime = endTime s, Note.text = text s\<rparr>
                      else note)
                 (notes s)
           | None \<Rightarrow>
               notes s @
               [\<lparr>Note.id = now, Note.startTime = startTime s, Note.endTime = endTime s,
                 Note.text = text s\<rparr>])"
  proof
    assume ?valid
    then have "fst (handleSubmit localeCompare now s) = None"
      using accepted by blast
    then have "notes (snd (handleSubmit localeCompare now s)) =
        sort_cmp (byStartTime localeCompare)
          (case editingNoteId s of
             Some editing \<Rightarrow> map (replaceEdited editing s) (notes s)
           | None \<Rightarrow> notes s @ [newNote now s])"
      by (rule handleSubmit_notes)
    then show "notes (snd (handleSubmit localeCompare now s)) =
        sort_cmp (\<lambda>a b. localeCompare (Note.startTime a) (Note.startTime b))
          (case editingNoteId s of
             Some editing \<Rightarrow>
               map (\<lambda>note. if Note.id note = editing
                      then \<lparr>Note.id = Note.id note, Note.startTime = startTime s,
                            Note.endTime = endTime s, Note.text = text s\<rparr>
                      else note)
                 (notes s)
           | None \<Rightarrow>
               notes s @
               [\<lparr>Note.id = now, Note.startTime = startTime s, Note.endTime = endTime s,
                 Note.text = text s\<rparr>])"
      by (simp only: callback compare newNote_def)
  qed
  from accepted missing range rejected only_if created' edited' written show ?thesis
    by (intro conjI)
qed

text \<open>
  The claim as stated has every valid submit change the notes. A valid submit in edit
  mode need not: with the draft that the edit button of \<open>coffee\<close> filled in, and with an
  id under edit that no note has, the submit passes validation, raises no alert, and
  leaves the list of notes as it was.
\<close>

theorem valid_edit_leaves_notes:
  "startTime draftSame \<noteq> [] \<and> endTime draftSame \<noteq> [] \<and> trim (text draftSame) \<noteq> []
   \<and> startTime draftSame < endTime draftSame
   \<and> fst (handleSubmit codeUnitCompare 3000 draftSame) = None
   \<and> notes (snd (handleSubmit codeUnitCompare 3000 draftSame)) = notes draftSame
   \<and> startTime draftDangling \<noteq> [] \<and> endTime draftDangling \<noteq> [] \<and> trim (text draftDangling) \<noteq> []
   \<and> startTime draftDangling < endTime draftDangling
   \<and> fst (handleSubmit codeUnitCompare 3000 draftDangling) = None
   \<and> notes (snd (handleSubmit codeUnitCompare 3000 draftDangling)) = notes draftDangling"
  by (simp add: handleSubmit_def draftSame_def draftDangling_def handleEdit_def twoNotes_def
      coffee_def writeSpec_def replaceEdited_def resetForm_def sort_cmp_def byStartTime_def
      codeUnitCompare_def js_def trim_def isWhiteSpace_def)

theorem handleSubmit_validation_witness:
  "fst (handleSubmit codeUnitCompare 3000 draftLate) = Some InvalidRange
   \<and> snd (handleSubmit codeUnitCompare 3000 draftLate) = draftLate
   \<and> fst (handleSubmit codeUnitCompare 3000 draftBlank) = Some MissingField
   \<and> snd (handleSubmit codeUnitCompare 3000 draftBlank) = draftBlank
   \<and> fst (handleSubmit codeUnitCompare 3000 draftGood) = None
   \<and> notes (snd (handleSubmit codeUnitCompare 3000 draftGood)) \<noteq> notes draftGood
   \<and> fst (handleSubmit codeUnitCompare 3000 draftMove) = None
   \<and> notes (snd (handleSubmit codeUnitCompare 3000 draftMove)) \<noteq> notes draftMove"
proof -
  have late: "startTime draftLate \<noteq> [] \<and> endTime draftLate \<noteq> [] \<and> trim (text draftLate) \<noteq> []
      \<and> startTime draftLate \<ge> endTime draftLate"
    by (simp add: draftLate_def js_def trim_def isWhiteSpace_def)
  have blank: "trim (text draftBlank) = []"
    by (simp add: draftBlank_def trim_def isWhiteSpace_def)
  have good: "startTime draftGood \<noteq> [] \<and> endTime draftGood \<noteq> [] \<and> trim (text draftGood) \<noteq> []
      \<and> startTime draftGood < endTime draftGood \<and> editingNoteId draftGood = None"
    by (simp add: draftGood_def twoNotes_def js_def trim_def isWhiteSpace_def)
  have move: "startTime draftMove \<noteq> [] \<and> endTime draftMove \<noteq> [] \<and> trim (text draftMove) \<noteq> []
      \<and> startTime draftMove < endTime draftMove
      \<and> editingNoteId draftMove = Some 1000 \<and> writeSpec \<in> set (notes draftMove)
      \<and> Note.id writeSpec = 1000
      \<and> (Note.startTime writeSpec \<noteq> startTime draftMove
           \<or> Note.endTime writeSpec \<noteq> endTime draftMove
           \<or> Note.text writeSpec \<noteq> text draftMove)"
    by (simp add: draftMove_def twoNotes_def writeSpec_def js_def trim_def isWhiteSpace_def)
  note vl = handleSubmit_validation [of codeUnitCompare 3000 draftLate]
  note vb = handleSubmit_validation [of codeUnitCompare 3000 draftBlank]
  note vg = handleSubmit_validation [of codeUnitCompare 3000 draftGood]
  note vm = handleSubmit_validation [of codeUnitCompare 3000 draftMove 1000 writeSpec]
  have l: "fst (handleSubmit codeUnitCompare 3000 draftLate) = Some InvalidRange"
    using vl [THEN conjunct2, THEN conjunct2, THEN conjunct1] late by blast
  then have l': "snd (handleSubmit codeUnitCompare 3000 draftLate) = draftLate"
    using vl [THEN conjunct2, THEN conjunct2, THEN conjunct2, THEN conjunct1] by simp
  have b: "fst (handleSubmit codeUnitCompare 3000 draftBlank) = Some MissingField"
    using vb [THEN conjunct2, THEN conjunct1] blank by blast
  then have b': "snd (handleSubmit codeUnitCompare 3000 draftBlank) = draftBlank"
    using vb [THEN conjunct2, THEN conjunct2, THEN conjunct2, THEN conjunct1] by simp
  have g: "fst (handleSubmit codeUnitCompare 3000 draftGood) = None"
    using vg [THEN conjunct1] good by blast
  have g': "notes (snd (handleSubmit codeUnitCompare 3000 draftGood)) \<noteq> notes draftGood"
    using vg [THEN conjunct2, THEN conjunct2, THEN conjunct2, THEN conjunct2, THEN conjunct2,
        THEN conjunct1]
      good by blast
  have m: "fst (handleSubmit codeUnitCompare 3000 draftMove) = None"
    using vm [THEN conjunct1] move by blast
  have m': "notes (snd (handleSubmit codeUnitCompare 3000 draftMove)) \<noteq> notes draftMove"
    using vm [THEN conjunct2, THEN conjunct2, THEN conjunct2, THEN conjunct2, THEN conjunct2,
        THEN conjunct2, THEN conjunct1]
      move by blast
  from l l' b b' g g' m m' show ?thesis
    by (intro conjI)
qed

text \<open>
  Claim C3. On a draft that passes validation, with no note being edited, the submit
  makes the collection one note longer: its notes are those it had and one more, whose
  id is the clock value and whose start time, end time and text are the three inputs,
  the text as entered (not trimmed).
\<close>

theorem add_inserts_one_note:
  assumes "startTime s \<noteq> []" and "startTime s < endTime s" and "trim (text s) \<noteq> []"
    and "editingNoteId s = None"
  shows "fst (handleSubmit localeCompare now s) = None
    \<and> length (notes (snd (handleSubmit localeCompare now s))) = length (notes s) + 1
    \<and> mset (notes (snd (handleSubmit localeCompare now s))) =
        add_mset
          \<lparr>Note.id = now, Note.startTime = startTime s, Note.endTime = endTime s,
           Note.text = text s\<rparr>
          (mset (notes s))"
  using assms
  by (simp add: handleSubmit_add resetForm_def length_sort_cmp mset_sort_cmp newNote_def)

theorem add_inserts_one_note_witness:
  "length (notes (snd (handleSubmit codeUnitCompare 3000 draftGood))) = 3
   \<and> \<lparr>Note.id = 3000, Note.startTime = js ''08:15'', Note.endTime = js ''09:00'',
       Note.text = js '' x''\<rparr>
      \<in> set (notes (snd (handleSubmit codeUnitCompare 3000 draftGood)))"
proof -
  have good: "startTime draftGood \<noteq> []" "startTime draftGood < endTime draftGood"
    "trim (text draftGood) \<noteq> []" "editingNoteId draftGood = None"
    by (simp_all add: draftGood_def twoNotes_def js_def trim_def isWhiteSpace_def)
  have fields: "startTime draftGood = js ''08:15''" "endTime draftGood = js ''09:00''"
    "text draftGood = js '' x''" "length (notes draftGood) = 2"
    by (simp_all add: draftGood_def twoNotes_def)
  from add_inserts_one_note [OF good, of codeUnitCompare 3000]
  have len: "length (notes (snd (handleSubmit codeUnitCompare 3000 draftGood))) = 3"
    and ms: "mset (notes (snd (handleSubmit codeUnitCompare 3000 draftGood))) =
      add_mset
        \<lparr>Note.id = 3000, Note.startTime = js ''08:15'', Note.endTime = js ''09:00'',
         Note.text = js '' x''\<rparr>
        (mset (notes draftGood))"
    by (simp_all add: fields)
  have "\<lparr>Note.id = 3000, Note.startTime = js ''08:15'', Note.endTime = js ''09:00'',
       Note.text = js '' x''\<rparr>
      \<in> set_mset (mset (notes (snd (handleSubmit codeUnitCompare 3000 draftGood))))"
    by (simp only: ms) simp
  with len show ?thesis
    by simp
qed

section \<open>Order of the notes after a submit\<close>

lemma collatesTimes_codeUnitCompare: "collatesTimes codeUnitCompare"
  by (auto simp: collatesTimes_def codeUnitCompare_def)

lemma insert_cmp_insort_key:
  "\<forall>y \<in> set ys. (c x y \<le> 0) = (f x \<le> f y) \<Longrightarrow> insert_cmp c x ys = insort_key f x ys"
  by (induction ys) auto

lemma sort_cmp_sort_key:
  "\<forall>x \<in> set xs. \<forall>y \<in> set xs. (c x y \<le> 0) = (f x \<le> f y) \<Longrightarrow> sort_cmp c xs = sort_key f xs"
proof (induction xs)
  case Nil
  then show ?case by (simp add: sort_cmp_def)
next
  case (Cons x xs)
  then have "sort_cmp c xs = sort_key f xs"
    by simp
  moreover have "\<forall>y \<in> set (sort_key f xs). (c x y \<le> 0) = (f x \<le> f y)"
    using Cons.prems by simp
  ultimately show ?case
    by (simp add: sort_cmp_def insert_cmp_insort_key)
qed

lemma sort_cmp_byStartTime:
  assumes "collatesTimes lc" and "\<forall>note \<in> set xs. isTime (Note.startTime note)"
  shows "sort_cmp (byStartTime lc) xs = sort_key Note.startTime xs"
  using assms by (intro sort_cmp_sort_key) (simp add: byStartTime_def collatesTimes_def)

lemma sort_cmp_sorted:
  "sorted_wrt (\<lambda>a b. c a b \<le> 0) xs \<Longrightarrow> sort_cmp c xs = xs"
proof (induction xs)
  case Nil
  then show ?case by (simp add: sort_cmp_def)
next
  case (Cons x xs)
  then have "sort_cmp c (x # xs) = insert_cmp c x xs"
    by (simp add: sort_cmp_def)
  also have "\<dots> = x # xs"
    using Cons.prems by (cases xs) auto
  finally show ?case .
qed

text \<open>
  Claim C2. After a submit that passed validation, in the create branch as in the update
  branch, the start times of the collection are in non-decreasing string order, and notes
  with the same start time stand in the order they had in the array that was sorted (the
  old notes followed by the new one, or the old notes with the edited one replaced).
  The notes and the draft hold times of day, on which the collation decides as the
  comparison of strings does.
\<close>

theorem submit_sorts:
  assumes "collatesTimes localeCompare"
    and "\<forall>note \<in> set (notes s). isTime (Note.startTime note)"
    and "isTime (startTime s)"
    and "fst (handleSubmit localeCompare now s) = None"
  shows "sorted (map Note.startTime (notes (snd (handleSubmit localeCompare now s))))
    \<and> (\<forall>t. filter (\<lambda>note. Note.startTime note = t)
               (notes (snd (handleSubmit localeCompare now s))) =
             filter (\<lambda>note. Note.startTime note = t)
               (case editingNoteId s of
                  Some editing \<Rightarrow> map (replaceEdited editing s) (notes s)
                | None \<Rightarrow> notes s @ [newNote now s]))"
proof -
  let ?input = "case editingNoteId s of
      Some editing \<Rightarrow> map (replaceEdited editing s) (notes s)
    | None \<Rightarrow> notes s @ [newNote now s]"
  have "\<forall>note \<in> set ?input. isTime (Note.startTime note)"
    using assms(2,3) by (auto simp: newNote_def replaceEdited_def split: option.splits)
  with assms(1) have "sort_cmp (byStartTime localeCompare) ?input = sort_key Note.startTime ?input"
    by (rule sort_cmp_byStartTime)
  with assms(4) have "notes (snd (handleSubmit localeCompare now s)) =
      sort_key Note.startTime ?input"
    by (simp add: handleSubmit_notes)
  then show ?thesis
    by (simp add: sort_key_stable)
qed

lemma isTime_samples:
  "isTime (js ''08:00'')" "isTime (js ''09:00'')" "isTime (js ''08:15'')" "isTime (js ''07:30'')"
  by (simp_all add: js_def isDigit_def digitValue_def)

theorem submit_sorts_witness:
  "sorted (map Note.startTime (notes (snd (handleSubmit codeUnitCompare 3000 draftGood))))
   \<and> map Note.startTime (notes (snd (handleSubmit codeUnitCompare 3000 draftGood))) =
       [js ''08:00'', js ''08:15'', js ''09:00'']
   \<and> sorted (map Note.startTime (notes (snd (handleSubmit codeUnitCompare 3000 draftMove))))
   \<and> map Note.id (notes (snd (handleSubmit codeUnitCompare 3000 draftMove))) = [1000, 2000]"
proof -
  have all: "\<forall>note \<in> set (notes draftGood). isTime (Note.startTime note)"
    "\<forall>note \<in> set (notes draftMove). isTime (Note.startTime note)"
    by (simp_all add: draftGood_def draftMove_def twoNotes_def coffee_def writeSpec_def isTime_samples)
  have new: "isTime (startTime draftGood)" "isTime (startTime draftMove)"
    by (simp_all add: draftGood_def draftMove_def isTime_samples)
  have good: "handleSubmit codeUnitCompare 3000 draftGood =
      (None, twoNotes\<lparr>notes := [coffee, newNote 3000 draftGood, writeSpec]\<rparr>)"
    by (simp add: handleSubmit_def draftGood_def twoNotes_def coffee_def writeSpec_def
        newNote_def resetForm_def sort_cmp_def byStartTime_def codeUnitCompare_def js_def
        trim_def isWhiteSpace_def)
  have move: "handleSubmit codeUnitCompare 3000 draftMove =
      (None, twoNotes\<lparr>notes := [replaceEdited 1000 draftMove writeSpec, coffee]\<rparr>)"
    by (simp add: handleSubmit_def draftMove_def twoNotes_def coffee_def writeSpec_def
        replaceEdited_def resetForm_def sort_cmp_def byStartTime_def codeUnitCompare_def js_def
        trim_def isWhiteSpace_def)
  have "fst (handleSubmit codeUnitCompare 3000 draftGood) = None"
    "fst (handleSubmit codeUnitCompare 3000 draftMove) = None"
    by (simp_all add: good move)
  then have "sorted (map Note.startTime (notes (snd (handleSubmit codeUnitCompare 3000 draftGood))))"
    "sorted (map Note.startTime (notes (snd (handleSubmit codeUnitCompare 3000 draftMove))))"
    using submit_sorts [OF collatesTimes_codeUnitCompare all(1) new(1), of 3000]
      submit_sorts [OF collatesTimes_codeUnitCompare all(2) new(2), of 3000]
    by blast+
  moreover have "map Note.startTime (notes (snd (handleSubmit codeUnitCompare 3000 draftGood))) =
       [js ''08:00'', js ''08:15'', js ''09:00'']"
    by (simp only: good) (simp add: newNote_def draftGood_def coffee_def writeSpec_def)
  moreover have "map Note.id (notes (snd (handleSubmit codeUnitCompare 3000 draftMove))) = [1000, 2000]"
    by (simp only: move) (simp add: replaceEdited_def coffee_def writeSpec_def)
  ultimately show ?thesis
    by (intro conjI)
qed

section \<open>The replacement of the note under edit\<close>

lemma replaceEdited_id: "Note.id (replaceEdited e s note) = Note.id note"
  by (simp add: replaceEdited_def)

lemma map_replaceEdited_absent:
  "e \<notin> Note.id ` set xs \<Longrightarrow> map (replaceEdited e s) xs = xs"
  by (induction xs) (auto simp: replaceEdited_def)

lemma mset_map_replaceEdited:
  assumes "distinct (map Note.id xs)" and "x \<in> set xs" and "Note.id x = e"
  shows "mset (map (replaceEdited e s) xs) = add_mset (replaceEdited e s x) (mset xs - {#x#})"
  using assms
proof (induction xs)
  case Nil
  then show ?case by simp
next
  case (Cons y ys)
  show ?case
  proof (cases "y = x")
    case True
    with Cons.prems have "e \<notin> Note.id ` set ys"
      by auto
    then have "map (replaceEdited e s) ys = ys"
      by (rule map_replaceEdited_absent)
    with True show ?thesis
      by simp
  next
    case False
    with Cons.prems have x: "x \<in> set ys" and d: "distinct (map Note.id ys)"
      by auto
    with Cons.prems have "Note.id y \<noteq> e"
      by auto
    then have y: "replaceEdited e s y = y"
      by (simp add: replaceEdited_def)
    from Cons.IH [OF d x Cons.prems(3)]
    have "mset (map (replaceEdited e s) ys) = add_mset (replaceEdited e s x) (mset ys - {#x#})" .
    with False y show ?thesis
      by simp
  qed
qed

section \<open>Ids\<close>

lemma run_twoSubmits:
  "notes (run codeUnitCompare initial (twoSubmits a b)) =
     [\<lparr>Note.id = b, Note.startTime = js ''08:00'', Note.endTime = js ''08:30'',
       Note.text = js ''coffee''\<rparr>,
      \<lparr>Note.id = a, Note.startTime = js ''09:00'', Note.endTime = js ''10:00'',
       Note.text = js ''write spec''\<rparr>]"
  by (simp add: run_def twoSubmits_def initial_def handleSubmit_def newNote_def resetForm_def
      sort_cmp_def byStartTime_def codeUnitCompare_def js_def trim_def isWhiteSpace_def)

text \<open>
  Claim C5 asks that no two notes of the collection share an id, in every state that
  add, update, remove and clear can reach. The id of a new note is the value of
  \<open>Date.now()\<close> at its submit ("Use timestamp for a unique ID"), and the create branch
  does not look at the ids already in the list. From the empty initial state, two
  submits that read the same clock value, 1000, leave two notes with the id 1000.
\<close>

theorem same_clock_value_repeats_id:
  "\<not> distinct (map Note.id (notes (run codeUnitCompare initial (twoSubmits 1000 1000))))"
  by (simp add: run_twoSubmits)

text \<open>
  The other operations keep the ids apart: update keeps every id, delete and delete-all
  only remove notes, and a create does so as long as its clock value is not the id of a
  note in the list.
\<close>

lemma distinct_map_mset:
  assumes "mset xs = mset ys"
  shows "distinct (map f xs) = distinct (map f ys)"
proof -
  from assms have "mset (map f xs) = mset (map f ys)"
    by simp
  then show ?thesis
    by (rule mset_eq_imp_distinct_iff)
qed

lemma distinct_ids_sort_cmp:
  "distinct (map Note.id (sort_cmp c xs)) = distinct (map Note.id xs)"
  by (rule distinct_map_mset) (rule mset_sort_cmp)

lemma ids_replaceEdited: "Note.id \<circ> replaceEdited e s = Note.id"
  by (rule ext) (simp add: replaceEdited_id)

lemma handleSubmit_distinct:
  assumes "distinct (map Note.id (notes s))"
    and "fst (handleSubmit lc now s) = None \<and> editingNoteId s = None \<longrightarrow>
      now \<notin> Note.id ` set (notes s)"
  shows "distinct (map Note.id (notes (snd (handleSubmit lc now s))))"
proof (cases "fst (handleSubmit lc now s)")
  case None
  then have "notes (snd (handleSubmit lc now s)) =
    sort_cmp (byStartTime lc)
      (case editingNoteId s of
         Some editing \<Rightarrow> map (replaceEdited editing s) (notes s)
       | None \<Rightarrow> notes s @ [newNote now s])"
    by (rule handleSubmit_notes)
  then show ?thesis
    using assms None
    by (simp add: distinct_ids_sort_cmp ids_replaceEdited newNote_def split: option.splits)
next
  case (Some a)
  then have "snd (handleSubmit lc now s) = s"
    by (auto simp: handleSubmit_def split: if_splits)
  with assms show ?thesis by simp
qed

lemma step_distinct:
  assumes "distinct (map Note.id (notes s))" and "freshClock lc s [e]"
  shows "distinct (map Note.id (notes (step lc s e)))"
proof (cases e)
  case (Submit now)
  with assms show ?thesis
    by (simp add: handleSubmit_distinct)
next
  case (Delete i)
  with assms show ?thesis
    by (simp add: handleDelete_def distinct_map_filter)
qed (use assms in \<open>simp_all add: handleEdit_def handleCancelEdit_def deleteAll_def\<close>)

lemma freshClock_Cons:
  "freshClock lc s (e # events) \<longleftrightarrow> freshClock lc s [e] \<and> freshClock lc (step lc s e) events"
  by (cases e) simp_all

lemma fresh_clock_keeps_ids_unique:
  assumes "distinct (map Note.id (notes s))" and "freshClock localeCompare s events"
  shows "distinct (map Note.id (notes (run localeCompare s events)))"
  using assms
proof (induction events arbitrary: s)
  case Nil
  then show ?case by (simp add: run_def)
next
  case (Cons e events)
  from Cons.prems(2) have one: "freshClock localeCompare s [e]"
    and rest: "freshClock localeCompare (step localeCompare s e) events"
    by (simp_all only: freshClock_Cons [of localeCompare s e events])
  from Cons.prems(1) one have "distinct (map Note.id (notes (step localeCompare s e)))"
    by (rule step_distinct)
  then have "distinct (map Note.id (notes (run localeCompare (step localeCompare s e) events)))"
    using rest by (rule Cons.IH)
  then show ?case
    by (simp add: run_def)
qed

section \<open>Editing a note\<close>

text \<open>
  Claim C6, as the code has it. A submit of a valid draft while \<open>editingNoteId\<close> is \<open>e\<close>
  writes back the list in which each note with the id \<open>e\<close> has the start time, end time
  and text of the draft and its own id, and every other note is as it was, sorted again
  by start time. In a collection with unique ids that is exactly one note replaced: the
  notes afterwards are the replaced note and all the others. When no note has the id \<open>e\<close>
  and the collection is in the order of the sort, the list afterwards is the list before.
  Nothing tells the caller that the id was not found: no alert is raised and the form is
  reset, as after an edit that found its note.
\<close>

theorem update_replaces_matching:
  assumes "startTime s \<noteq> []" and "startTime s < endTime s" and "trim (text s) \<noteq> []"
    and "editingNoteId s = Some e"
  shows "notes (snd (handleSubmit localeCompare now s)) =
      sort_cmp (\<lambda>a b. localeCompare (Note.startTime a) (Note.startTime b))
        (map (\<lambda>note. if Note.id note = e
                then \<lparr>Note.id = Note.id note, Note.startTime = startTime s,
                      Note.endTime = endTime s, Note.text = text s\<rparr>
                else note)
           (notes s))
    \<and> (distinct (map Note.id (notes s)) \<and> edited \<in> set (notes s) \<and> Note.id edited = e \<longrightarrow>
         mset (notes (snd (handleSubmit localeCompare now s))) =
           add_mset
             \<lparr>Note.id = Note.id edited, Note.startTime = startTime s,
               Note.endTime = endTime s, Note.text = text s\<rparr>
             (mset (notes s) - {#edited#}))
    \<and> (e \<notin> Note.id ` set (notes s)
         \<and> sorted_wrt (\<lambda>a b. localeCompare (Note.startTime a) (Note.startTime b) \<le> 0) (notes s) \<longrightarrow>
         notes (snd (handleSubmit localeCompare now s)) = notes s)
    \<and> fst (handleSubmit localeCompare now s) = None
    \<and> startTime (snd (handleSubmit localeCompare now s)) = []
    \<and> endTime (snd (handleSubmit localeCompare now s)) = []
    \<and> text (snd (handleSubmit localeCompare now s)) = []
    \<and> editingNoteId (snd (handleSubmit localeCompare now s)) = None"
proof -
  have result: "handleSubmit localeCompare now s =
      (None,
       resetForm
         (s\<lparr>notes := sort_cmp (byStartTime localeCompare) (map (replaceEdited e s) (notes s))\<rparr>))"
    using assms by (rule handleSubmit_update)
  have callback: "replaceEdited e s =
      (\<lambda>note. if Note.id note = e
         then \<lparr>Note.id = Note.id note, Note.startTime = startTime s,
               Note.endTime = endTime s, Note.text = text s\<rparr>
         else note)"
    by (rule ext) (simp add: replaceEdited_def)
  have compare: "byStartTime localeCompare =
      (\<lambda>a b. localeCompare (Note.startTime a) (Note.startTime b))"
    by (intro ext) (simp add: byStartTime_def)
  have sorted_again: "notes (snd (handleSubmit localeCompare now s)) =
      sort_cmp (byStartTime localeCompare) (map (replaceEdited e s) (notes s))"
    by (simp add: result resetForm_def)
  then have exact: "notes (snd (handleSubmit localeCompare now s)) =
      sort_cmp (\<lambda>a b. localeCompare (Note.startTime a) (Note.startTime b))
        (map (\<lambda>note. if Note.id note = e
                then \<lparr>Note.id = Note.id note, Note.startTime = startTime s,
                      Note.endTime = endTime s, Note.text = text s\<rparr>
                else note)
           (notes s))"
    by (simp only: callback compare)
  have one: "mset (notes (snd (handleSubmit localeCompare now s))) =
      add_mset
        \<lparr>Note.id = Note.id edited, Note.startTime = startTime s,
          Note.endTime = endTime s, Note.text = text s\<rparr>
        (mset (notes s) - {#edited#})"
    if "distinct (map Note.id (notes s))" and "edited \<in> set (notes s)" and "Note.id edited = e"
  proof -
    have "mset (notes (snd (handleSubmit localeCompare now s))) =
        mset (map (replaceEdited e s) (notes s))"
      by (simp only: sorted_again mset_sort_cmp)
    also have "\<dots> = add_mset (replaceEdited e s edited) (mset (notes s) - {#edited#})"
      using that by (rule mset_map_replaceEdited)
    also have "replaceEdited e s edited =
        \<lparr>Note.id = Note.id edited, Note.startTime = startTime s,
          Note.endTime = endTime s, Note.text = text s\<rparr>"
      using that(3) by (simp add: replaceEdited_def)
    finally show ?thesis .
  qed
  have unchanged: "notes (snd (handleSubmit localeCompare now s)) = notes s"
    if "e \<notin> Note.id ` set (notes s)"
      and "sorted_wrt (\<lambda>a b. localeCompare (Note.startTime a) (Note.startTime b) \<le> 0) (notes s)"
  proof -
    from that(2) have "sorted_wrt (\<lambda>a b. byStartTime localeCompare a b \<le> 0) (notes s)"
      by (simp add: byStartTime_def)
    then show ?thesis
      using that(1) by (simp add: sorted_again map_replaceEdited_absent sort_cmp_sorted)
  qed
  have reset: "fst (handleSubmit localeCompare now s) = None"
    "startTime (snd (handleSubmit localeCompare now s)) = []"
    "endTime (snd (handleSubmit localeCompare now s)) = []"
    "text (snd (handleSubmit localeCompare now s)) = []"
    "editingNoteId (snd (handleSubmit localeCompare now s)) = None"
    by (simp_all add: result resetForm_def)
  from exact one unchanged reset show ?thesis
    by (intro conjI impI) blast+
qed

text \<open>
  The claim as stated asks for a "not found" condition when no note has the id. With
  \<open>editingNoteId\<close> at 3000, an id that no note has, the submit returns no alert and the
  state of a finished edit, and its first component is the one of an edit that found
  its note. The claim is also stated for every collection: a list that is not in order
  is reordered by an update that finds no note, and of two notes that share an id (the
  two created at one clock value) both are overwritten, the text "coffee" being lost.
\<close>

theorem update_absent_id_not_signalled:
  "3000 \<notin> Note.id ` set (notes draftDangling)
   \<and> handleSubmit codeUnitCompare 5000 draftDangling = (None, twoNotes)
   \<and> fst (handleSubmit codeUnitCompare 5000 draftMove) = None
   \<and> 3000 \<notin> Note.id ` set (notes draftShuffled)
   \<and> notes draftShuffled = [writeSpec, coffee]
   \<and> notes (snd (handleSubmit codeUnitCompare 5000 draftShuffled)) = [coffee, writeSpec]
   \<and> map Note.text (notes draftTwins) = [js ''coffee'', js ''write spec'']
   \<and> map Note.id (notes draftTwins) = [1000, 1000]
   \<and> map Note.text (notes (snd (handleSubmit codeUnitCompare 5000 draftTwins))) =
       [js ''write spec'', js ''write spec'']"
  by (simp add: handleSubmit_def draftDangling_def draftShuffled_def draftTwins_def draftMove_def
      twoNotes_def coffee_def writeSpec_def replaceEdited_def resetForm_def sort_cmp_def
      byStartTime_def codeUnitCompare_def js_def trim_def isWhiteSpace_def run_twoSubmits)

theorem update_replaces_matching_witness:
  "notes (snd (handleSubmit codeUnitCompare 5000 draftMove)) =
     [\<lparr>Note.id = 1000, Note.startTime = js ''07:30'', Note.endTime = js ''08:00'',
       Note.text = js ''write spec''\<rparr>, coffee]
   \<and> mset (notes (snd (handleSubmit codeUnitCompare 5000 draftMove))) =
       add_mset
         \<lparr>Note.id = 1000, Note.startTime = js ''07:30'', Note.endTime = js ''08:00'',
           Note.text = js ''write spec''\<rparr>
         (mset (notes draftMove) - {#writeSpec#})
   \<and> notes (snd (handleSubmit codeUnitCompare 5000 draftDangling)) = notes draftDangling
   \<and> editingNoteId (snd (handleSubmit codeUnitCompare 5000 draftDangling)) = None"
proof -
  have move: "startTime draftMove \<noteq> []" "startTime draftMove < endTime draftMove"
    "trim (text draftMove) \<noteq> []" "editingNoteId draftMove = Some 1000"
    by (simp_all add: draftMove_def twoNotes_def js_def trim_def isWhiteSpace_def)
  have dangling: "startTime draftDangling \<noteq> []" "startTime draftDangling < endTime draftDangling"
    "trim (text draftDangling) \<noteq> []" "editingNoteId draftDangling = Some 3000"
    by (simp_all add: draftDangling_def twoNotes_def js_def trim_def isWhiteSpace_def)
  have unique: "distinct (map Note.id (notes draftMove)) \<and> writeSpec \<in> set (notes draftMove)
      \<and> Note.id writeSpec = 1000"
    by (simp add: draftMove_def twoNotes_def coffee_def writeSpec_def)
  have fields: "Note.id writeSpec = 1000" "startTime draftMove = js ''07:30''"
    "endTime draftMove = js ''08:00''" "text draftMove = js ''write spec''"
    by (simp_all add: draftMove_def writeSpec_def)
  have absent: "3000 \<notin> Note.id ` set (notes draftDangling)
      \<and> sorted_wrt (\<lambda>a b. codeUnitCompare (Note.startTime a) (Note.startTime b) \<le> 0)
          (notes draftDangling)"
    by (simp add: draftDangling_def twoNotes_def coffee_def writeSpec_def codeUnitCompare_def
        js_def)
  note m = update_replaces_matching [OF move, of codeUnitCompare 5000 writeSpec]
  note d = update_replaces_matching [OF dangling, of codeUnitCompare 5000]
  have "notes (snd (handleSubmit codeUnitCompare 5000 draftMove)) =
     [\<lparr>Note.id = 1000, Note.startTime = js ''07:30'', Note.endTime = js ''08:00'',
       Note.text = js ''write spec''\<rparr>, coffee]"
    by (simp only: m [THEN conjunct1])
      (simp add: draftMove_def twoNotes_def coffee_def writeSpec_def sort_cmp_def
        codeUnitCompare_def js_def)
  moreover have "mset (notes (snd (handleSubmit codeUnitCompare 5000 draftMove))) =
       add_mset
         \<lparr>Note.id = 1000, Note.startTime = js ''07:30'', Note.endTime = js ''08:00'',
           Note.text = js ''write spec''\<rparr>
         (mset (notes draftMove) - {#writeSpec#})"
    using m [THEN conjunct2, THEN conjunct1] unique by (simp only: fields)
  moreover have "notes (snd (handleSubmit codeUnitCompare 5000 draftDangling)) = notes draftDangling"
    using d [THEN conjunct2, THEN conjunct2, THEN conjunct1] absent by blast
  moreover have "editingNoteId (snd (handleSubmit codeUnitCompare 5000 draftDangling)) = None"
    using d by blast
  ultimately show ?thesis
    by (intro conjI)
qed

section \<open>Deleting a note\<close>

lemma handleDelete_notes:
  "notes (handleDelete i s) = filter (\<lambda>note. Note.id note \<noteq> i) (notes s)"
  by (simp add: handleDelete_def)

text \<open>
  Claim C7. After \<open>handleDelete i\<close> no note of the collection has the id \<open>i\<close>, and when
  no note had that id the collection is the same list as before; deleting the same id a
  second time changes nothing.
\<close>

theorem handleDelete_removes:
  "i \<notin> Note.id ` set (notes (handleDelete i s))
   \<and> (i \<notin> Note.id ` set (notes s) \<longrightarrow> notes (handleDelete i s) = notes s)
   \<and> handleDelete i (handleDelete i s) = handleDelete i s"
proof (intro conjI impI)
  show "i \<notin> Note.id ` set (notes (handleDelete i s))"
    by (auto simp: handleDelete_notes)
next
  assume "i \<notin> Note.id ` set (notes s)"
  then have "\<forall>note \<in> set (notes s). Note.id note \<noteq> i"
    by auto
  then show "notes (handleDelete i s) = notes s"
    by (simp add: handleDelete_notes)
next
  show "handleDelete i (handleDelete i s) = handleDelete i s"
    by (simp add: handleDelete_def)
qed

theorem handleDelete_removes_witness:
  "3000 \<notin> Note.id ` set (notes twoNotes)
   \<and> notes (handleDelete 3000 twoNotes) = notes twoNotes
   \<and> 2000 \<notin> Note.id ` set (notes (handleDelete 2000 twoNotes))
   \<and> notes (handleDelete 2000 twoNotes) = [writeSpec]"
  using handleDelete_removes [of 3000 twoNotes] handleDelete_removes [of 2000 twoNotes]
  by (simp add: handleDelete_notes twoNotes_def coffee_def writeSpec_def)

text \<open>
  Claim C9. \<open>handleDelete\<close> leaves the three inputs of the form and \<open>editingNoteId\<close> as
  they were. When the note being edited is the one deleted, \<open>editingNoteId\<close> still holds
  its id afterwards, though no note of the collection has that id any more.
\<close>

theorem handleDelete_keeps_draft:
  "startTime (handleDelete i s) = startTime s
   \<and> endTime (handleDelete i s) = endTime s
   \<and> text (handleDelete i s) = text s
   \<and> editingNoteId (handleDelete i s) = editingNoteId s
   \<and> editingNoteId (handleDelete (Note.id note) (handleEdit note s)) = Some (Note.id note)
   \<and> Note.id note \<notin> Note.id ` set (notes (handleDelete (Note.id note) (handleEdit note s)))"
  by (auto simp: handleDelete_def handleEdit_def)

theorem handleDelete_keeps_draft_witness:
  "editingNoteId (handleDelete 2000 (handleEdit coffee twoNotes)) = Some 2000
   \<and> startTime (handleDelete 2000 (handleEdit coffee twoNotes)) = js ''08:00''
   \<and> notes (handleDelete 2000 (handleEdit coffee twoNotes)) = [writeSpec]"
  using handleDelete_keeps_draft [of 2000 "handleEdit coffee twoNotes" coffee]
  by (simp add: handleDelete_def handleEdit_def twoNotes_def coffee_def writeSpec_def)

section \<open>Reading and writing a time of day\<close>

lemma unat_digit: "n < 10 \<Longrightarrow> unat (digit n) = 48 + n"
  unfolding digit_def by (subst unat_of_nat) simp

lemma isDigit_digit: "n < 10 \<Longrightarrow> isDigit (digit n)"
  by (simp add: isDigit_def word_le_nat_alt unat_digit)

lemma digitValue_digit: "n < 10 \<Longrightarrow> digitValue (digit n) = n"
  by (simp add: digitValue_def unat_digit)

lemma isDigit_not_isWhiteSpace: "isDigit c \<Longrightarrow> \<not> isWhiteSpace c"
  by (auto simp: isDigit_def isWhiteSpace_def word_le_nat_alt)

lemma isDigit_not_punct: "isDigit c \<Longrightarrow> c \<noteq> 0x3A \<and> c \<noteq> 0x2D \<and> c \<noteq> 0x2B"
  by (auto simp: isDigit_def)

lemma padStart_two_digits:
  "k < 100 \<Longrightarrow> padStart 2 (js ''0'') (toString (int k)) = [digit (k div 10), digit (k mod 10)]"
proof -
  assume k: "k < 100"
  show ?thesis
  proof (cases "k < 10")
    case True
    then show ?thesis
      by (simp add: padStart_def toString_def digitsOf.simps [of k] js_def digit_def)
  next
    case False
    with k have "k div 10 < 10" by simp
    with False show ?thesis
      by (simp add: padStart_def toString_def digitsOf.simps [of k] digitsOf.simps [of "k div 10"])
  qed
qed

lemma trim_digits:
  assumes "isDigit a" and "isDigit b"
  shows "trim [a, b] = [a, b]"
  using assms by (simp add: trim_def isDigit_not_isWhiteSpace)

lemma Number_two_digits:
  assumes "isDigit a" and "isDigit b"
  shows "Number [a, b] = Some (int (10 * digitValue a + digitValue b))"
  using assms isDigit_not_punct [of a]
  by (simp add: Number_def trim_digits decimalDigits_def)

lemma split_time:
  assumes "isDigit a" "isDigit b" "isDigit c" "isDigit d"
  shows "split 0x3A [a, b, 0x3A, c, d] = [[a, b], [c, d]]"
  using assms isDigit_not_punct [of a] isDigit_not_punct [of b] isDigit_not_punct [of c]
    isDigit_not_punct [of d]
  by simp

lemma timeToMinutes_time:
  assumes "isDigit a" "isDigit b" "isDigit c" "isDigit d"
  shows "timeToMinutes [a, b, 0x3A, c, d] =
    Some (int ((10 * digitValue a + digitValue b) * 60 + (10 * digitValue c + digitValue d)))"
  by (simp only: timeToMinutes_def split_time [OF assms]) (simp add: Number_two_digits assms)

lemma minutesToTime_eq:
  assumes "n \<le> 1439"
  shows "minutesToTime (int n) =
    [digit (n div 60 div 10), digit (n div 60 mod 10), 0x3A,
     digit (n mod 60 div 10), digit (n mod 60 mod 10)]"
proof -
  have h: "int n div 60 = int (n div 60)" and r: "int n mod 60 = int (n mod 60)"
    by (simp_all add: zdiv_int zmod_int)
  have "n div 60 < 100" "n mod 60 < 100"
    using assms by simp_all
  then show ?thesis
    by (simp add: minutesToTime_def Let_def h r padStart_two_digits) (simp add: js_def)
qed

text \<open>
  Claim C10. For every whole number of minutes \<open>m\<close> from 0 to 1439, \<open>minutesToTime m\<close> is
  a time of day \<open>HH:MM\<close>, and \<open>timeToMinutes\<close> reads it back as \<open>m\<close>.
\<close>

theorem minutes_roundtrip:
  assumes "0 \<le> m" and "m \<le> 1439"
  shows "timeToMinutes (minutesToTime m) = Some m \<and> isTime (minutesToTime m)"
proof -
  define n where "n = nat m"
  with assms have m: "m = int n" and n: "n \<le> 1439"
    by simp_all
  let ?h = "n div 60" and ?r = "n mod 60"
  from n have h: "?h < 24" and r: "?r < 60"
    by simp_all
  then have small: "?h div 10 < 10" "?h mod 10 < 10" "?r div 10 < 10" "?r mod 10 < 10"
    by simp_all
  have "timeToMinutes (minutesToTime m) =
      Some (int ((10 * (?h div 10) + ?h mod 10) * 60 + (10 * (?r div 10) + ?r mod 10)))"
    using small
    by (simp only: m minutesToTime_eq [OF n] timeToMinutes_time isDigit_digit digitValue_digit)
  also have "(10 * (?h div 10) + ?h mod 10) * 60 + (10 * (?r div 10) + ?r mod 10) = n"
    by simp
  finally have parsed: "timeToMinutes (minutesToTime m) = Some m"
    by (simp add: m)
  have "isTime (minutesToTime m)"
    using small h r
    by (simp add: m minutesToTime_eq [OF n] isDigit_digit digitValue_digit)
  with parsed show ?thesis ..
qed

theorem minutes_roundtrip_witness:
  "minutesToTime 545 = js ''09:05'' \<and> timeToMinutes (minutesToTime 545) = Some 545
   \<and> timeToMinutes (minutesToTime 0) = Some 0 \<and> timeToMinutes (minutesToTime 1439) = Some 1439"
proof -
  have "minutesToTime 545 = js ''09:05''"
    by (simp add: minutesToTime_def padStart_def toString_def js_def digitsOf.simps digit_def)
  then show ?thesis
    using minutes_roundtrip [of 545] minutes_roundtrip [of 0] minutes_roundtrip [of 1439]
    by simp
qed

lemma timeToMinutes_isTime:
  assumes "isTime t"
  shows "timeToMinutes t = Some (minutesSinceMidnight t)"
proof -
  from assms obtain h1 h2 c m1 m2 where t: "t = [h1, h2, c, m1, m2]"
    by (cases t rule: isTime.cases) simp_all
  with assms have "isDigit h1" "isDigit h2" "isDigit m1" "isDigit m2" and c: "c = 0x3A"
    by simp_all
  then show ?thesis
    unfolding t c by (simp only: timeToMinutes_time minutesSinceMidnight.simps)
qed

text \<open>
  Claim C4. For a note whose start and end are times of day, the duration in hours is
  the minutes since midnight of the end, less those of the start, divided by 60. From
  09:00 to 10:30 it is 1.5, which is also the number shown.
\<close>

theorem duration_formula:
  "(isTime (Note.startTime note) \<and> isTime (Note.endTime note) \<longrightarrow>
      durationHours note =
        Some (of_int (minutesSinceMidnight (Note.endTime note)
                      - minutesSinceMidnight (Note.startTime note)) / 60))
   \<and> durationHours
        \<lparr>Note.id = i, Note.startTime = js ''09:00'', Note.endTime = js ''10:30'', Note.text = t\<rparr>
      = Some (3 / 2)
   \<and> durationShown
        \<lparr>Note.id = i, Note.startTime = js ''09:00'', Note.endTime = js ''10:30'', Note.text = t\<rparr>
      = Some (3 / 2)"
proof -
  have general: "durationHours n =
      Some (of_int (minutesSinceMidnight (Note.endTime n)
                    - minutesSinceMidnight (Note.startTime n)) / 60)"
    if "isTime (Note.startTime n)" and "isTime (Note.endTime n)" for n
    using that by (simp add: durationHours_def timeToMinutes_isTime)
  have times: "isTime (js ''09:00'')" "isTime (js ''10:30'')"
    by (simp_all add: js_def isDigit_def digitValue_def)
  have mins: "minutesSinceMidnight (js ''09:00'') = 540" "minutesSinceMidnight (js ''10:30'') = 630"
    by (simp_all add: js_def digitValue_def)
  have example: "durationHours
      \<lparr>Note.id = i, Note.startTime = js ''09:00'', Note.endTime = js ''10:30'', Note.text = t\<rparr>
      = Some (3 / 2)"
    by (simp add: general times mins)
  then have shown: "durationShown
      \<lparr>Note.id = i, Note.startTime = js ''09:00'', Note.endTime = js ''10:30'', Note.text = t\<rparr>
      = Some (3 / 2)"
    by (simp add: durationShown_def toFixed2_def floor_eq_iff)
  from general [of "note"] example shown show ?thesis
    by blast
qed

theorem duration_formula_witness:
  "isTime (Note.startTime writeSpec) \<and> isTime (Note.endTime writeSpec)
   \<and> durationHours writeSpec = Some 1"
proof -
  have times: "isTime (Note.startTime writeSpec) \<and> isTime (Note.endTime writeSpec)"
    by (simp add: writeSpec_def js_def isDigit_def digitValue_def)
  have mins: "minutesSinceMidnight (Note.endTime writeSpec) = 600"
    "minutesSinceMidnight (Note.startTime writeSpec) = 540"
    by (simp_all add: writeSpec_def js_def digitValue_def)
  from duration_formula [of writeSpec, THEN conjunct1] times
  have "durationHours writeSpec =
      Some (of_int (minutesSinceMidnight (Note.endTime writeSpec)
                    - minutesSinceMidnight (Note.startTime writeSpec)) / 60)"
    by blast
  then have "durationHours writeSpec = Some 1"
    by (simp add: mins)
  with times show ?thesis
    by blast
qed

section \<open>Saving and loading\<close>

text \<open>
  The reader above gives back what the writer was given: first the pieces (a literal, a
  quoted string with its escapes, an integer, one note), then the array.
\<close>

lemma expect_Nil: "expect [] s = Some s"
  by (simp add: expect_def)

lemma expect_Cons: "expect (c # literal) (d # s) = (if c = d then expect literal s else None)"
  by (simp add: expect_def)

lemma expect_append: "expect literal (literal @ s) = Some s"
  by (simp add: expect_def)

lemma unat_hexDigit: "n < 16 \<Longrightarrow> unat (hexDigit n) = (if n < 10 then 48 + n else 87 + n)"
proof -
  assume n: "n < 16"
  have "unat (of_nat (48 + n) :: code_unit) = 48 + n" "unat (of_nat (87 + n) :: code_unit) = 87 + n"
    using n by (subst unat_of_nat, simp)+
  then show ?thesis
    by (simp only: hexDigit_def split: if_splits) simp
qed

lemma hexValue_hexDigit: "n < 16 \<Longrightarrow> hexValue (hexDigit n) = Some n"
  by (simp add: hexValue_def word_le_nat_alt unat_hexDigit)

lemma hex_places:
  fixes n :: nat
  shows "((n div 4096 * 16 + n div 256 mod 16) * 16 + n div 16 mod 16) * 16 + n mod 16 = n"
proof -
  have a: "n div 256 = n div 16 div 16" and b: "n div 4096 = n div 16 div 16 div 16"
    by (simp_all add: div_mult2_eq)
  have "n div 16 div 16 div 16 * 16 + n div 16 div 16 mod 16 = n div 16 div 16"
    by simp
  moreover have "n div 16 div 16 * 16 + n div 16 mod 16 = n div 16"
    by simp
  moreover have "n div 16 * 16 + n mod 16 = n"
    by simp
  ultimately show ?thesis
    by (simp only: a b)
qed

lemma hex4_UnicodeEscape:
  "hex4 (hexDigit (unat c div 4096)) (hexDigit (unat c div 256 mod 16))
     (hexDigit (unat c div 16 mod 16)) (hexDigit (unat c mod 16)) = Some c"
proof -
  have "unat c < 2 ^ 16"
    using unsigned_less [of c] by simp
  then have "unat c div 4096 < 16"
    by simp
  then have digits:
    "hexValue (hexDigit (unat c div 4096)) = Some (unat c div 4096)"
    "hexValue (hexDigit (unat c div 256 mod 16)) = Some (unat c div 256 mod 16)"
    "hexValue (hexDigit (unat c div 16 mod 16)) = Some (unat c div 16 mod 16)"
    "hexValue (hexDigit (unat c mod 16)) = Some (unat c mod 16)"
    by (simp_all add: hexValue_hexDigit)
  have "(of_nat (((unat c div 4096 * 16 + unat c div 256 mod 16) * 16 + unat c div 16 mod 16) * 16
      + unat c mod 16) :: code_unit) = c"
    by (simp only: hex_places) simp
  then show ?thesis
    by (simp only: hex4_def digits prod.case option.case)
qed

lemma parseChars_escapeUnit:
  "parseChars (escapeUnit c @ s) = map_option (apfst ((#) c)) (parseChars s)"
proof -
  consider (special) "c \<in> {0x08, 0x09, 0x0A, 0x0C, 0x0D, 0x22, 0x5C}"
    | (escaped) "c \<notin> {0x08, 0x09, 0x0A, 0x0C, 0x0D, 0x22, 0x5C}"
        "c < 0x20 \<or> isLeadingSurrogate c \<or> isTrailingSurrogate c"
    | (plain) "c \<notin> {0x08, 0x09, 0x0A, 0x0C, 0x0D, 0x22, 0x5C}"
        "\<not> (c < 0x20 \<or> isLeadingSurrogate c \<or> isTrailingSurrogate c)"
    by blast
  then show ?thesis
  proof cases
    case special
    then show ?thesis
      by (auto simp: escapeUnit_def unescape_def)
  next
    case escaped
    then have "escapeUnit c = UnicodeEscape c"
      by (simp add: escapeUnit_def)
    then show ?thesis
      by (simp add: UnicodeEscape_def hex4_UnicodeEscape)
  next
    case plain
    then have "escapeUnit c = [c]" and "c \<noteq> 0x22" and "c \<noteq> 0x5C" and "\<not> c < 0x20"
      by (simp_all add: escapeUnit_def)
    then show ?thesis
      by simp
  qed
qed

lemma parseChars_pair:
  assumes "isLeadingSurrogate c" and "isTrailingSurrogate d"
  shows "parseChars (c # d # s) = map_option (apfst (\<lambda>v. c # d # v)) (parseChars s)"
proof -
  from assms have "c \<noteq> 0x22" "c \<noteq> 0x5C" "\<not> c < 0x20" "d \<noteq> 0x22" "d \<noteq> 0x5C" "\<not> d < 0x20"
    by (auto simp: isLeadingSurrogate_def isTrailingSurrogate_def word_le_nat_alt word_less_nat_alt)
  then show ?thesis
    by (simp add: option.map_comp comp_def apfst_def map_prod_def split_def)
qed

lemma parseChars_quoteUnits:
  "parseChars (quoteUnits v @ 0x22 # s) = Some (v, s)"
proof (induction v rule: quoteUnits.induct)
  case 1
  show ?case by simp
next
  case (2 c)
  show ?case
    by (simp only: quoteUnits.simps parseChars_escapeUnit) simp
next
  case (3 c d cs)
  show ?case
  proof (cases "isLeadingSurrogate c \<and> isTrailingSurrogate d")
    case True
    with 3 have "parseChars (quoteUnits cs @ 0x22 # s) = Some (cs, s)"
      by simp
    moreover from True
    have "quoteUnits (c # d # cs) @ 0x22 # s = c # d # (quoteUnits cs @ 0x22 # s)"
      by simp
    ultimately show ?thesis
      using True by (simp only: parseChars_pair) simp
  next
    case False
    with 3 have "parseChars (quoteUnits (d # cs) @ 0x22 # s) = Some (d # cs, s)"
      by simp
    with False show ?thesis
      by (simp only: quoteUnits.simps if_False append_assoc parseChars_escapeUnit) simp
  qed
qed

lemma parseString_QuoteJSONString:
  "parseString (QuoteJSONString v @ s) = Some (v, s)"
  by (simp add: parseString_def QuoteJSONString_def parseChars_quoteUnits)

lemma digitsOf_digits: "list_all isDigit (digitsOf n)"
proof (induction n rule: digitsOf.induct)
  case (1 n)
  then show ?case
    by (subst digitsOf.simps) (simp add: isDigit_digit)
qed

lemma digitsOf_not_Nil: "digitsOf n \<noteq> []"
  by (subst digitsOf.simps) simp

lemma digitsOf_value: "foldl (\<lambda>k c. 10 * k + int (digitValue c)) 0 (digitsOf n) = int n"
proof (induction n rule: digitsOf.induct)
  case (1 n)
  show ?case
  proof (cases "n < 10")
    case True
    then show ?thesis
      by (subst digitsOf.simps) (simp add: digitValue_digit)
  next
    case False
    with 1 have "foldl (\<lambda>k c. 10 * k + int (digitValue c)) 0 (digitsOf (n div 10)) = int (n div 10)"
      by simp
    moreover have "10 * int (n div 10) + int (n mod 10) = int n"
      by (simp add: zdiv_int zmod_int)
    ultimately show ?thesis
      using False by (subst digitsOf.simps) (simp add: digitValue_digit)
  qed
qed

lemma digitsOf_leading: "0 < n \<Longrightarrow> hd (digitsOf n) \<noteq> 0x30"
proof (induction n rule: digitsOf.induct)
  case (1 n)
  show ?case
  proof (cases "n < 10")
    case True
    with "1.prems" have "unat (digit n) \<noteq> unat (0x30 :: code_unit)"
      by (simp add: unat_digit)
    then have "digit n \<noteq> 0x30"
      by auto
    with True show ?thesis
      by (subst digitsOf.simps) simp
  next
    case False
    then have "0 < n div 10"
      by simp
    with False 1 have "hd (digitsOf (n div 10)) \<noteq> 0x30"
      by simp
    with False show ?thesis
      by (subst digitsOf.simps) (simp add: digitsOf_not_Nil)
  qed
qed

lemma digitsOf_single: "n < 10 \<Longrightarrow> digitsOf n = [digit n]"
  by (subst digitsOf.simps) simp

lemma parseNatural_digitsOf:
  assumes "\<not> isDigit c"
  shows "parseNatural (digitsOf n @ c # s) = Some (int n, c # s)"
proof -
  have all: "\<And>x. x \<in> set (digitsOf n) \<Longrightarrow> isDigit x"
    using digitsOf_digits [of n] by (simp add: list_all_iff)
  have took: "takeWhile isDigit (digitsOf n @ c # s) = digitsOf n"
    using assms all by simp
  have dropped: "dropWhile isDigit (digitsOf n @ c # s) = c # s"
    using assms all by simp
  have "\<not> (length (digitsOf n) > 1 \<and> hd (digitsOf n) = 0x30)"
  proof (cases "n < 10")
    case True
    then show ?thesis by (simp add: digitsOf_single)
  next
    case False
    then show ?thesis by (simp add: digitsOf_leading)
  qed
  then show ?thesis
    by (simp add: parseNatural_def Let_def took dropped digitsOf_not_Nil digitsOf_value)
qed

lemma parseInteger_toString:
  assumes "\<not> isDigit c"
  shows "parseInteger (toString i @ c # s) = Some (i, c # s)"
proof (cases "i < 0")
  case True
  then show ?thesis
    using assms by (simp add: parseInteger_def toString_def parseNatural_digitsOf)
next
  case False
  obtain d ds where ds: "digitsOf (nat i) = d # ds"
    using digitsOf_not_Nil [of "nat i"] by (cases "digitsOf (nat i)") auto
  with digitsOf_digits [of "nat i"] have "isDigit d"
    by simp
  then have "d \<noteq> 0x2D"
    using isDigit_not_punct by blast
  moreover have "parseNatural (d # ds @ c # s) = Some (i, c # s)"
    using parseNatural_digitsOf [OF assms, of "nat i" s] False by (simp add: ds)
  ultimately show ?thesis
    using False by (simp add: parseInteger_def toString_def ds)
qed

lemma parseNote_stringifyNote: "parseNote (stringifyNote n @ s) = Some (n, s)"
proof -
  have comma: "\<not> isDigit 0x2C"
    by (simp add: isDigit_def)
  show ?thesis
    by (simp add: parseNote_def stringifyNote_def expect_Cons expect_append expect_Nil
        parseInteger_toString [OF comma] parseString_QuoteJSONString)
qed

lemma stringifyNote_not_Nil: "stringifyNote n \<noteq> []"
  by (simp add: stringifyNote_def)

lemma parseElements_joinComma:
  assumes "ns \<noteq> []" and "length ns \<le> fuel"
  shows "parseElements fuel (joinComma (map stringifyNote ns) @ 0x5D # s) = Some (ns, s)"
  using assms
proof (induction ns arbitrary: fuel)
  case Nil
  then show ?case by simp
next
  case (Cons n ns)
  then obtain fuel' where fuel: "fuel = Suc fuel'" and enough: "length ns \<le> fuel'"
    by (cases fuel) auto
  show ?case
  proof (cases ns)
    case Nil
    then show ?thesis
      by (simp add: fuel parseNote_stringifyNote)
  next
    case (Cons n' ns')
    with Cons.IH [of fuel'] enough
    have "parseElements fuel' (joinComma (map stringifyNote ns) @ 0x5D # s) = Some (ns, s)"
      by simp
    with Cons show ?thesis
      by (simp add: fuel parseNote_stringifyNote)
  qed
qed

lemma length_joinComma: "length ns \<le> length (joinComma (map stringifyNote ns))"
proof (induction ns)
  case Nil
  show ?case by simp
next
  case (Cons n ns)
  have "1 \<le> length (stringifyNote n)"
    using stringifyNote_not_Nil [of n] by (cases "stringifyNote n") auto
  with Cons show ?case
    by (cases ns) auto
qed

lemma parseNotes_stringifyNotes: "parseNotes (stringifyNotes ns) = Some ns"
proof (cases ns)
  case Nil
  then show ?thesis
    by (simp add: parseNotes_def stringifyNotes_def)
next
  case (Cons n ns')
  let ?body = "joinComma (map stringifyNote ns)"
  have "?body \<noteq> []"
    using length_joinComma [of ns] Cons by auto
  then have open_array: "?body @ [0x5D] \<noteq> [0x5D]"
    by simp
  have "length ns \<le> length (?body @ [0x5D])"
    using length_joinComma [of ns] by simp
  with Cons have "parseElements (length (?body @ [0x5D])) (?body @ 0x5D # []) = Some (ns, [])"
    by (intro parseElements_joinComma) simp_all
  with open_array show ?thesis
    by (simp add: parseNotes_def stringifyNotes_def)
qed

lemma stringifyNotes_not_Nil: "stringifyNotes ns \<noteq> []"
  by (simp add: stringifyNotes_def)

text \<open>What a write that succeeded has stored is what the next read returns.\<close>

lemma getItem_setItem:
  "setItem key v storage = Some storage' \<Longrightarrow> getItem key storage' = Some v"
  by (auto simp: setItem_def getItem_def Let_def update_conv' split: if_splits)

text \<open>
  Claim C8. With a conforming serializer, one whose text for the notes is not empty and
  is parsed back to the same notes, and a write that the storage accepts, the notes
  loaded right after a save are the notes saved: the same list, hence the same set of
  notes, each with its id, start time, end time and text.
\<close>

theorem load_after_save:
  assumes "parse (stringify ns) = Some ns" and "stringify ns \<noteq> []"
    and "setItem storageKey (stringify ns) storage \<noteq> None"
  shows "notes (loadEffect parse (saveEffect stringify ns storage) s) = ns
    \<and> set (notes (loadEffect parse (saveEffect stringify ns storage) s)) = set ns"
proof -
  from assms(3) obtain storage' where
    written: "setItem storageKey (stringify ns) storage = Some storage'"
    by auto
  then have "getItem storageKey storage' = Some (stringify ns)"
    by (rule getItem_setItem)
  with written assms(1,2) show ?thesis
    by (simp add: saveEffect_def loadEffect_def)
qed

theorem load_after_save_witness:
  "notes (loadEffect parseNotes (saveEffect stringifyNotes [coffee, writeSpec] emptyStorage) initial)
     = [coffee, writeSpec]"
proof -
  have "length (stringifyNotes [coffee, writeSpec]) \<le> 4000000"
    by (simp add: stringifyNotes_def stringifyNote_def property_def QuoteJSONString_def
        coffee_def writeSpec_def toString_def digitsOf.simps js_def
        escapeUnit_def isLeadingSurrogate_def isTrailingSurrogate_def)
  then have accepted: "setItem storageKey (stringifyNotes [coffee, writeSpec]) emptyStorage \<noteq> None"
    by (simp add: setItem_def emptyStorage_def storageKey_def js_def)
  from load_after_save
    [of parseNotes stringifyNotes "[coffee, writeSpec]" emptyStorage initial,
      OF parseNotes_stringifyNotes stringifyNotes_not_Nil accepted]
  show ?thesis
    by simp
qed

end
